theory Spec2Isabelle
  imports Complex_Main "HOL-Library.Multiset" "HOL-Library.AList"
begin

section \<open>JavaScript numbers\<close>

text \<open>
  The analysis tool \<^verbatim>\<open>src/tools/ais-parser.js\<close> computes on JavaScript numbers. Finite
  numbers are modelled as \<^typ>\<open>real\<close>; the three special values a division can produce are
  kept apart, because the histogram of \<^verbatim>\<open>calculateDistribution\<close> divides by a bin size that
  may be zero. Rounding is modelled where it decides a result: the products from which
  \<^verbatim>\<open>findPercentileRange\<close> takes its window indices are rounded to doubles, and the haversine
  term of \<^verbatim>\<open>calculateDistance\<close> carries its rounding error.
\<close>

datatype jsnum = Fin real | PosInf | NegInf | NaN

text \<open>\<^verbatim>\<open>x / y\<close>: a zero divisor gives an infinity, or NaN for \<^verbatim>\<open>0 / 0\<close>. (The only
  divisor that can be zero below is \<^verbatim>\<open>range / 10\<close> with \<^verbatim>\<open>range = max - min\<close>, a positive
  zero.)\<close>

definition js_div :: "real \<Rightarrow> real \<Rightarrow> jsnum" where
  "js_div x y =
     (if y \<noteq> 0 then Fin (x / y)
      else if 0 < x then PosInf
      else if x < 0 then NegInf
      else NaN)"

text \<open>\<^verbatim>\<open>Math.floor\<close> and \<^verbatim>\<open>Math.min\<close>.\<close>

fun js_floor :: "jsnum \<Rightarrow> jsnum" where
  "js_floor (Fin x) = Fin (of_int \<lfloor>x\<rfloor>)"
| "js_floor PosInf = PosInf"
| "js_floor NegInf = NegInf"
| "js_floor NaN = NaN"

fun js_min :: "jsnum \<Rightarrow> jsnum \<Rightarrow> jsnum" where
  "js_min NaN _ = NaN"
| "js_min _ NaN = NaN"
| "js_min NegInf _ = NegInf"
| "js_min _ NegInf = NegInf"
| "js_min PosInf y = y"
| "js_min x PosInf = x"
| "js_min (Fin a) (Fin b) = Fin (min a b)"

text \<open>\<^verbatim>\<open>x % y\<close> on finite numbers with \<^verbatim>\<open>y \<noteq> 0\<close>: the remainder of the division truncated
  towards zero (the result has the sign of \<^verbatim>\<open>x\<close>).\<close>

definition js_trunc :: "real \<Rightarrow> int" where
  "js_trunc x = (if 0 \<le> x then \<lfloor>x\<rfloor> else \<lceil>x\<rceil>)"

definition js_rem :: "real \<Rightarrow> real \<Rightarrow> real" where
  "js_rem x y = x - y * of_int (js_trunc (x / y))"

text \<open>\<^verbatim>\<open>Math.sqrt\<close>: NaN (here \<open>None\<close>) on a negative argument.\<close>

definition js_sqrt :: "real \<Rightarrow> real option" where
  "js_sqrt x = (if x < 0 then None else Some (sqrt x))"

text \<open>\<^verbatim>\<open>Math.atan2(y, x)\<close> on finite numbers; \<^verbatim>\<open>Math.atan2(0, 0)\<close> is \<^verbatim>\<open>0\<close>.\<close>

definition atan2 :: "real \<Rightarrow> real \<Rightarrow> real" where
  "atan2 y x =
     (if 0 < x then arctan (y / x)
      else if x < 0 \<and> 0 \<le> y then arctan (y / x) + pi
      else if x < 0 \<and> y < 0 then arctan (y / x) - pi
      else if 0 < y then pi / 2
      else if y < 0 then - (pi / 2)
      else 0)"

text \<open>\<^verbatim>\<open>bins[k]++\<close> on an array of counts. Only an integer \<^verbatim>\<open>k\<close> inside the array
  is an element index; for any other key (\<^verbatim>\<open>NaN\<close>, an infinity, a negative number) the
  statement sets a property of that name on the array object and leaves every element
  as it is. (An integer key past the end would extend the array; the keys below are
  capped at 9 by \<^verbatim>\<open>Math.min\<close>.)\<close>

definition increment_at :: "nat list \<Rightarrow> jsnum \<Rightarrow> nat list" where
  "increment_at bins k =
     (case k of
        Fin x \<Rightarrow>
          if 0 \<le> x \<and> x < real (length bins) \<and> of_int \<lfloor>x\<rfloor> = x
          then bins[nat \<lfloor>x\<rfloor> := bins ! nat \<lfloor>x\<rfloor> + 1]
          else bins
      | _ \<Rightarrow> bins)"

subsection \<open>Rounding to a double\<close>

text \<open>The integer nearest to \<open>m\<close>, the even one of two that are equally near.\<close>

definition round_even :: "real \<Rightarrow> int" where
  "round_even m =
     (let f = \<lfloor>m\<rfloor>; r = m - of_int f
      in if r < 1 / 2 then f else if 1 / 2 < r then f + 1 else if even f then f else f + 1)"

text \<open>The binary exponent of the double nearest to \<open>x\<close>; below \<open>2 ^ - 1022\<close> the doubles are
  subnormal and keep that exponent.\<close>

definition double_exponent :: "real \<Rightarrow> int" where
  "double_exponent x = max \<lfloor>log 2 \<bar>x\<bar>\<rfloor> (- 1022)"

text \<open>The double nearest to \<open>x\<close> (binary64, 53 significant bits, round to nearest, ties to
  even), for \<open>x\<close> below the overflow threshold \<open>2 ^ 1024\<close>; the numbers rounded below are
  products of a factor of at most 1 and an array length.\<close>

definition toDouble :: "real \<Rightarrow> real" where
  "toDouble x =
     (if x = 0 then 0
      else (let u = 2 powr real_of_int (double_exponent x - 52)
            in of_int (round_even (x / u)) * u))"

text \<open>Powers of two with an integer exponent.\<close>

definition pow2 :: "int \<Rightarrow> real" where
  "pow2 e = 2 powr real_of_int e"

section \<open>Geodesy\<close>

definition MY_LAT :: real where
  "MY_LAT = 51.50092998192453"

definition MY_LON :: real where
  "MY_LON = - 0.20671121337722095"

definition MAX_REASONABLE_DISTANCE :: real where
  "MAX_REASONABLE_DISTANCE = 100"

definition toRad :: "real \<Rightarrow> real" where
  "toRad deg = deg * (pi / 180)"

definition calculateBearing :: "real \<Rightarrow> real \<Rightarrow> real \<Rightarrow> real \<Rightarrow> real" where
  "calculateBearing lat1 lon1 lat2 lon2 =
     (let dLon = toRad (lon2 - lon1);
          y = sin dLon * cos (toRad lat2);
          x = cos (toRad lat1) * sin (toRad lat2)
              - sin (toRad lat1) * cos (toRad lat2) * cos dLon
      in js_rem (atan2 y x * 180 / pi + 360) 360)"

text \<open>The haversine term \<^verbatim>\<open>a\<close> of \<^verbatim>\<open>calculateDistance\<close> (line 23), in exact arithmetic.\<close>

definition haversine_a :: "real \<Rightarrow> real \<Rightarrow> real \<Rightarrow> real \<Rightarrow> real" where
  "haversine_a lat1 lon1 lat2 lon2 =
     (let dLat = toRad (lat2 - lat1);
          dLon = toRad (lon2 - lon1)
      in sin (dLat / 2) * sin (dLat / 2)
         + cos (toRad lat1) * cos (toRad lat2) * sin (dLon / 2) * sin (dLon / 2))"

text \<open>
  \<^verbatim>\<open>calculateDistance\<close>. The doubles compute \<^verbatim>\<open>a\<close> with rounding, and that decides whether
  \<^verbatim>\<open>Math.sqrt(1 - a)\<close> is NaN: the value of \<^verbatim>\<open>a\<close> is the exact term plus the rounding error
  \<open>err\<close> of line 23, which is the first argument (for two equal points \<^verbatim>\<open>a\<close> is exactly
  \<open>0\<close>, every product having the factor \<^verbatim>\<open>Math.sin(0)\<close>, and the error is \<open>0\<close>). The
  result is \<open>None\<close> where the JavaScript yields NaN, which only a \<^verbatim>\<open>Math.sqrt\<close> of a negative
  number can produce here.
\<close>

definition calculateDistance :: "real \<Rightarrow> real \<Rightarrow> real \<Rightarrow> real \<Rightarrow> real \<Rightarrow> real option" where
  "calculateDistance err lat1 lon1 lat2 lon2 =
     (let a = haversine_a lat1 lon1 lat2 lon2 + err
      in case js_sqrt a of
           None \<Rightarrow> None
         | Some sa \<Rightarrow>
             (case js_sqrt (1 - a) of
                None \<Rightarrow> None
              | Some sb \<Rightarrow> Some (6371 * (2 * atan2 sa sb) / 1.852)))"

section \<open>Distance distribution\<close>

record distribution =
  bins :: "nat list"
  binRanges :: "(real \<times> real) list"
  min_d :: real
  max_d :: real
  count_d :: nat

text \<open>The bin that \<^verbatim>\<open>Math.min(Math.floor((dist - min) / binSize), 9)\<close> selects.\<close>

definition binKey :: "real \<Rightarrow> real \<Rightarrow> real \<Rightarrow> jsnum" where
  "binKey d mn binSize = js_min (js_floor (js_div (d - mn) binSize)) (Fin 9)"

text \<open>
  \<^verbatim>\<open>calculateDistribution(distances)\<close>. \<^verbatim>\<open>distances.sort(...)\<close> sorts the caller's array
  in place and returns that same array, so \<^verbatim>\<open>sorted\<close> and \<^verbatim>\<open>distances\<close> are one array
  from there on. The model returns the result together with the contents of the
  caller's array after the call.
\<close>

definition calculateDistribution :: "real list \<Rightarrow> distribution option \<times> real list" where
  "calculateDistribution distances =
     (if length distances = 0 then (None, distances)
      else
        let sorted = sort distances;
            mn = sorted ! 0;
            mx = sorted ! (length sorted - 1);
            rng = mx - mn;
            binSize = rng / 10;
            ranges = map (\<lambda>i. (mn + real i * binSize, mn + (real i + 1) * binSize)) [0..<10];
            counts = fold (\<lambda>d bs. increment_at bs (binKey d mn binSize)) sorted
                       (replicate 10 0)
        in (Some \<lparr>bins = counts, binRanges = ranges, min_d = mn, max_d = mx,
                   count_d = length sorted\<rparr>,
            sorted))"

section \<open>Circular statistics\<close>

record percentileRange =
  minBearing :: real
  maxBearing :: real
  beamWidth :: real
  centerBearing :: real
  percentile :: real

record maxDistanceStats =
  md_count :: nat
  md_minBearing :: real
  md_maxBearing :: real
  md_spread :: real
  md_bearings :: "real list"
  md_avgDistance :: real

record beamWidthStats =
  beam_totalCount :: nat
  meanBearing :: real
  concentration :: real
  percentile68 :: percentileRange
  percentile95 :: percentileRange
  percentile99 :: percentileRange
  beam_maxDistance :: maxDistanceStats

subsection \<open>Percentile window and rotation search\<close>

text \<open>\<^verbatim>\<open>startIdx\<close> and \<^verbatim>\<open>endIdx\<close> of \<^verbatim>\<open>findPercentileRange\<close>, in double arithmetic: the
  literal \<open>p\<close>, the sum or difference, the half and the product are each rounded to a
  double (\<^verbatim>\<open>totalCount\<close> is an array length, below \<open>2 ^ 32\<close>, and exact). So
  \<^verbatim>\<open>((1 - 0.68) / 2) * 100\<close> is \<^verbatim>\<open>15.999999999999998\<close> and the start index 15, where exact
  arithmetic has 16.\<close>

definition startIndex :: "real \<Rightarrow> nat \<Rightarrow> nat" where
  "startIndex p totalCount =
     nat \<lfloor>toDouble (toDouble (toDouble (1 - toDouble p) / 2) * real totalCount)\<rfloor>"

definition endIndex :: "real \<Rightarrow> nat \<Rightarrow> nat" where
  "endIndex p totalCount =
     nat (\<lceil>toDouble (toDouble (toDouble (1 + toDouble p) / 2) * real totalCount)\<rceil> - 1)"

text \<open>\<^verbatim>\<open>sortedBearings.map((b) => (b + offset) % 360).sort((a, b) => a - b)\<close>\<close>

definition adjusted :: "real list \<Rightarrow> real \<Rightarrow> real list" where
  "adjusted sortedBearings offset = sort (map (\<lambda>b. js_rem (b + offset) 360) sortedBearings)"

text \<open>The body of the \<^verbatim>\<open>for (offset ...)\<close> loop, on the triple
  \<^verbatim>\<open>(bestRange, bestMin, bestMax)\<close>.\<close>

definition rotationStep ::
  "real list \<Rightarrow> nat \<Rightarrow> nat \<Rightarrow> nat \<Rightarrow> real \<times> real \<times> real \<Rightarrow> real \<times> real \<times> real" where
  "rotationStep sortedBearings startIdx endIdx offset best =
     (let adj = adjusted sortedBearings (real offset);
          adjMin = adj ! startIdx;
          adjMax = adj ! endIdx;
          rng = adjMax - adjMin
      in if rng < fst best
         then (rng, js_rem (adjMin - real offset + 360) 360,
                    js_rem (adjMax - real offset + 360) 360)
         else best)"

text \<open>\<^verbatim>\<open>for (let offset = 0; offset < 360; offset += 10)\<close>, entered at \<open>offset\<close>.\<close>

function rotationSearch ::
  "real list \<Rightarrow> nat \<Rightarrow> nat \<Rightarrow> nat \<Rightarrow> real \<times> real \<times> real \<Rightarrow> real \<times> real \<times> real" where
  "rotationSearch sortedBearings startIdx endIdx offset best =
     (if offset < 360
      then rotationSearch sortedBearings startIdx endIdx (offset + 10)
             (rotationStep sortedBearings startIdx endIdx offset best)
      else best)"
  by pat_completeness auto
termination
  by (relation "measure (\<lambda>(sb, s, e, offset, best). 360 - offset)") auto

declare rotationSearch.simps [simp del]

text \<open>\<^verbatim>\<open>findPercentileRange\<close> from the two window indices on.\<close>

definition percentileWindow :: "real list \<Rightarrow> nat \<Rightarrow> nat \<Rightarrow> real \<Rightarrow> percentileRange" where
  "percentileWindow sortedBearings startIdx endIdx p =
     (let minBearing0 = sortedBearings ! startIdx;
          maxBearing0 = sortedBearings ! endIdx;
          bounds =
            (if maxBearing0 - minBearing0 > 180
             then snd (rotationSearch sortedBearings startIdx endIdx 0
                         (maxBearing0 - minBearing0, minBearing0, maxBearing0))
             else (minBearing0, maxBearing0));
          mnB = fst bounds;
          mxB = snd bounds
      in \<lparr>minBearing = mnB, maxBearing = mxB,
          beamWidth = (if mxB > mnB then mxB - mnB else 360 - mnB + mxB),
          centerBearing =
            (if mxB > mnB then (mnB + mxB) / 2 else js_rem ((mnB + mxB + 360) / 2) 360),
          percentile = p\<rparr>)"

definition findPercentileRange :: "real list \<Rightarrow> real \<Rightarrow> percentileRange" where
  "findPercentileRange sortedBearings p =
     percentileWindow sortedBearings
       (startIndex p (length sortedBearings)) (endIndex p (length sortedBearings)) p"

subsection \<open>Top 5% by distance\<close>

text \<open>\<^verbatim>\<open>bearings.map((b, i) => ({ bearing: b, distance: distances[i] }))\<close>. The caller
  passes two arrays of the same length, so \<^verbatim>\<open>distances[i]\<close> is read inside the array.\<close>

definition combined :: "real list \<Rightarrow> real list \<Rightarrow> (real \<times> real) list" where
  "combined bearings distances =
     map (\<lambda>i. (bearings ! i, distances ! i)) [0..<length bearings]"

text \<open>\<^verbatim>\<open>combined.sort((a, b) => b.distance - a.distance)\<close>: descending by distance;
  the sort is stable.\<close>

definition sortedByDistance :: "real list \<Rightarrow> real list \<Rightarrow> (real \<times> real) list" where
  "sortedByDistance bearings distances =
     sort_key (\<lambda>item. - snd item) (combined bearings distances)"

definition top5PercentCount :: "nat \<Rightarrow> nat" where
  "top5PercentCount totalCount = max 1 (nat \<lfloor>real totalCount * 0.05\<rfloor>)"

definition top5Percent :: "real list \<Rightarrow> real list \<Rightarrow> (real \<times> real) list" where
  "top5Percent bearings distances =
     take (top5PercentCount (length bearings)) (sortedByDistance bearings distances)"

text \<open>\<^verbatim>\<open>calculateBeamWidth(bearings, distances)\<close>. \<^verbatim>\<open>Math.min(...)\<close> and
  \<^verbatim>\<open>Math.max(...)\<close> are applied to \<^verbatim>\<open>maxDistBearings\<close>, which is not empty; the argument of
  \<^verbatim>\<open>Math.sqrt\<close> is a sum of two squares.\<close>

definition calculateBeamWidth :: "real list \<Rightarrow> real list \<Rightarrow> beamWidthStats option" where
  "calculateBeamWidth bearings distances =
     (if length bearings = 0 then None
      else
        let sortedBearings = sort bearings;
            totalCount = length sortedBearings;
            top5 = top5Percent bearings distances;
            maxDistBearings = map fst top5;
            maxDistMin = Min (set maxDistBearings);
            maxDistMax = Max (set maxDistBearings);
            meanX = fold (\<lambda>b acc. acc + cos (b * pi / 180)) bearings 0 / real totalCount;
            meanY = fold (\<lambda>b acc. acc + sin (b * pi / 180)) bearings 0 / real totalCount
        in Some \<lparr>beam_totalCount = totalCount,
                 meanBearing = js_rem (atan2 meanY meanX * 180 / pi + 360) 360,
                 concentration = sqrt (meanX * meanX + meanY * meanY),
                 percentile68 = findPercentileRange sortedBearings 0.68,
                 percentile95 = findPercentileRange sortedBearings 0.95,
                 percentile99 = findPercentileRange sortedBearings 0.99,
                 beam_maxDistance =
                   \<lparr>md_count = top5PercentCount totalCount,
                    md_minBearing = maxDistMin,
                    md_maxBearing = maxDistMax,
                    md_spread = maxDistMax - maxDistMin,
                    md_bearings = sort maxDistBearings,
                    md_avgDistance =
                      fold (\<lambda>item acc. acc + snd item) top5 0
                      / real (top5PercentCount totalCount)\<rparr>\<rparr>)"

section \<open>Ingestion and aggregation\<close>

subsection \<open>Strings\<close>

definition startsWith :: "string \<Rightarrow> string \<Rightarrow> bool" where
  "startsWith s p = (take (length p) s = p)"

definition endsWith :: "string \<Rightarrow> string \<Rightarrow> bool" where
  "endsWith s p = (length p \<le> length s \<and> drop (length s - length p) s = p)"

text \<open>\<^verbatim>\<open>s.split(c)\<close> for a one-character separator.\<close>

fun splitOn :: "char \<Rightarrow> string \<Rightarrow> string list" where
  "splitOn c [] = [[]]"
| "splitOn c (x # xs) =
     (if x = c then [] # splitOn c xs
      else (case splitOn c xs of
              [] \<Rightarrow> [[x]]
            | h # t \<Rightarrow> (x # h) # t))"

definition isWhiteSpace :: "char \<Rightarrow> bool" where
  "isWhiteSpace c = (c \<in> {CHR 0x09, CHR 0x0A, CHR 0x0B, CHR 0x0C, CHR 0x0D, CHR '' ''})"

text \<open>The value of a digit character, by its position among the digits of base 16 in
  either case.\<close>

definition digitOf :: "char \<Rightarrow> nat option" where
  "digitOf c =
     (let lower = length (takeWhile (\<lambda>x. x \<noteq> c) ''0123456789abcdef'');
          upper = length (takeWhile (\<lambda>x. x \<noteq> c) ''0123456789ABCDEF'')
      in if lower < 16 then Some lower else if upper < 16 then Some upper else None)"

text \<open>\<^verbatim>\<open>Number.parseInt(s)\<close> with no radix argument: leading white space, a sign, a
  \<^verbatim>\<open>0x\<close> prefix, then the longest run of digits; \<open>None\<close> is NaN.\<close>

definition parseInt :: "string \<Rightarrow> int option" where
  "parseInt s =
     (let s1 = dropWhile isWhiteSpace s;
          neg = (take 1 s1 = ''-'');
          s2 = (if take 1 s1 = ''-'' \<or> take 1 s1 = ''+'' then drop 1 s1 else s1);
          hex = (take 2 s2 = ''0x'' \<or> take 2 s2 = ''0X'');
          radix = (if hex then 16 else 10 :: nat);
          s3 = (if hex then drop 2 s2 else s2);
          ds = takeWhile (\<lambda>d. case d of None \<Rightarrow> False | Some v \<Rightarrow> v < radix) (map digitOf s3);
          v = fold (\<lambda>d acc. acc * radix + the d) ds 0
      in if ds = [] then None else Some (if neg then - int v else int v))"

definition getHour :: "string \<Rightarrow> int option" where
  "getHour ts = parseInt (take 2 (drop 8 ts))"

definition getDate :: "string \<Rightarrow> string" where
  "getDate ts = take 8 ts"

subsection \<open>Records\<close>

text \<open>A line of the input after \<^verbatim>\<open>JSON.parse\<close>: \<open>Malformed\<close> when parsing throws. An absent
  field is \<open>None\<close>. Coordinates and ids are numbers, as the record format has them.

  The type parameter \<open>'d\<close> of a position and of the accumulators is the type of a
  distance: \<^typ>\<open>real option\<close> during ingestion, where \<open>None\<close> is a NaN that
  \<^verbatim>\<open>calculateDistance\<close> has returned, and \<^typ>\<open>real\<close> in the statistics of \<^verbatim>\<open>main\<close>, which are
  modelled for distances that are numbers.\<close>

record payload =
  mmsi :: int
  lat :: "real option"
  lon :: "real option"

record message =
  topic :: string
  timestamp :: "string option"
  payload :: "payload option"
  raw :: string

datatype line = Malformed | Parsed message

record 'd position =
  pos_lat :: real
  pos_lon :: real
  pos_bearing :: real
  pos_distance :: 'd
  pos_mmsi :: int

record debugEntry =
  dbg_distance :: real
  dbg_bearing :: real
  dbg_mmsi :: int
  dbg_lat :: real
  dbg_lon :: real
  dbg_timestamp :: "string option"
  dbg_raw :: string

record dailyAggregate =
  dayCount :: nat
  nightCount :: nat
  totalCount :: nat
  maxDistance :: real
  maxDistanceMMSI :: "int option"

text \<open>The objects \<^verbatim>\<open>stats\<close> and \<^verbatim>\<open>bearingCounts\<close> are association lists with one entry
  per key; \<^verbatim>\<open>obj[k] = v\<close> is \<^const>\<open>AList.update\<close>. (Date keys are digit strings, never
  the name of an inherited property.)\<close>

type_synonym statsMap = "(string \<times> dailyAggregate) list"

record 'd pstate =
  stats :: statsMap
  excludedCount :: nat
  allDistances :: "'d list"
  bearingCounts :: "(int \<times> nat) list"
  allBearings :: "real list"
  debugDistances :: "debugEntry list"
  allPositions :: "'d position list"

subsection \<open>Per-record aggregation\<close>

definition sectorOf :: "real \<Rightarrow> int" where
  "sectorOf bearing = \<lfloor>bearing / 15\<rfloor> * 15"

text \<open>\<^verbatim>\<open>counts[sector] = (counts[sector] || 0) + 1\<close>\<close>

definition countSector :: "(int \<times> nat) list \<Rightarrow> int \<Rightarrow> (int \<times> nat) list" where
  "countSector counts sector =
     AList.update sector ((case map_of counts sector of None \<Rightarrow> 0 | Some c \<Rightarrow> c) + 1) counts"

definition freshAggregate :: dailyAggregate where
  "freshAggregate =
     \<lparr>dayCount = 0, nightCount = 0, totalCount = 0, maxDistance = 0, maxDistanceMMSI = None\<rparr>"

text \<open>Lines 175 to 190 of \<^verbatim>\<open>processFile\<close>: the update of \<^verbatim>\<open>stats[date]\<close> for one sample.
  A NaN hour fails \<^verbatim>\<open>hour >= 8\<close>, a NaN distance fails \<^verbatim>\<open>distance > stats[date].maxDistance\<close>.\<close>

definition recordSample ::
  "statsMap \<Rightarrow> string \<Rightarrow> int option \<Rightarrow> real option \<Rightarrow> int \<Rightarrow> statsMap" where
  "recordSample st date hour distance m =
     (let a0 = (case map_of st date of None \<Rightarrow> freshAggregate | Some a \<Rightarrow> a);
          a1 = a0\<lparr>totalCount := totalCount a0 + 1\<rparr>;
          a2 = (if (case hour of None \<Rightarrow> False | Some h \<Rightarrow> 8 \<le> h \<and> h < 20)
                then a1\<lparr>dayCount := dayCount a1 + 1\<rparr>
                else a1\<lparr>nightCount := nightCount a1 + 1\<rparr>);
          a3 = (case distance of
                  None \<Rightarrow> a2
                | Some d \<Rightarrow>
                    if d > maxDistance a2
                    then a2\<lparr>maxDistance := d, maxDistanceMMSI := Some m\<rparr>
                    else a2)
      in AList.update date a3 st)"

text \<open>Lines 166 to 190 of \<^verbatim>\<open>processFile\<close>: a record that has passed the filters is added
  to the accumulators. When the timestamp is absent, taking its substring throws, which is
  caught and logged before anything is changed.\<close>

definition addSample ::
  "message \<Rightarrow> payload \<Rightarrow> real \<Rightarrow> real \<Rightarrow> real option \<Rightarrow> real option pstate \<Rightarrow> real option pstate" where
  "addSample data pl la lo distance st =
     (case timestamp data of
        None \<Rightarrow> st
      | Some ts \<Rightarrow>
          let bearing = calculateBearing MY_LAT MY_LON la lo;
              date = getDate ts;
              hour = getHour ts
          in st\<lparr>allPositions := allPositions st @
                  [\<lparr>pos_lat = la, pos_lon = lo, pos_bearing = bearing,
                    pos_distance = distance, pos_mmsi = mmsi pl\<rparr>],
                allDistances := allDistances st @ [distance],
                allBearings := allBearings st @ [bearing],
                bearingCounts := countSector (bearingCounts st) (sectorOf bearing),
                stats := recordSample (stats st) date hour distance (mmsi pl)\<rparr>)"

text \<open>The body of the \<^verbatim>\<open>for await (const line of rl)\<close> loop. A line that does not parse
  throws inside the \<^verbatim>\<open>try\<close>; the exception is caught and logged, and the loop goes on.
  \<open>err la lo\<close> is the rounding error of the haversine term for the station and the point
  \<open>(la, lo)\<close>. A NaN distance fails \<^verbatim>\<open>distance > MAX_REASONABLE_DISTANCE\<close>, so the record is not
  skipped: it is added to the accumulators with that distance.\<close>

definition processLine ::
  "(real \<Rightarrow> real \<Rightarrow> real) \<Rightarrow> bool \<Rightarrow> int set \<Rightarrow> line \<Rightarrow> real option pstate \<Rightarrow> real option pstate" where
  "processLine err debugMode excludeMMSIs inputLine st =
     (case inputLine of
        Malformed \<Rightarrow> st
      | Parsed data \<Rightarrow>
          if topic data \<noteq> ''ais/data'' then st
          else (case payload data of
            None \<Rightarrow> st
          | Some pl \<Rightarrow>
              if mmsi pl \<in> excludeMMSIs then st\<lparr>excludedCount := excludedCount st + 1\<rparr>
              else (case (lat pl, lon pl) of
                (Some la, Some lo) \<Rightarrow>
                  if \<bar>la\<bar> > 90 \<or> \<bar>lo\<bar> > 180 then st
                  else (case calculateDistance (err la lo) MY_LAT MY_LON la lo of
                    None \<Rightarrow> addSample data pl la lo None st
                  | Some distance \<Rightarrow>
                      if distance > MAX_REASONABLE_DISTANCE then
                        (if debugMode then
                           st\<lparr>debugDistances := debugDistances st @
                              [\<lparr>dbg_distance = distance,
                                dbg_bearing = calculateBearing MY_LAT MY_LON la lo,
                                dbg_mmsi = mmsi pl, dbg_lat = la, dbg_lon = lo,
                                dbg_timestamp = timestamp data, dbg_raw = raw data\<rparr>]\<rparr>
                         else st)
                      else addSample data pl la lo (Some distance) st)
              | _ \<Rightarrow> st)))"

text \<open>\<^verbatim>\<open>processFile\<close>: the accumulators are the caller's, \<^verbatim>\<open>stats\<close> and \<^verbatim>\<open>excludedCount\<close>
  start empty for each file.\<close>

definition processFile ::
  "(real \<Rightarrow> real \<Rightarrow> real) \<Rightarrow> bool \<Rightarrow> int set \<Rightarrow> line list \<Rightarrow> real option pstate \<Rightarrow> real option pstate" where
  "processFile err debugMode excludeMMSIs lines acc =
     fold (processLine err debugMode excludeMMSIs) lines (acc\<lparr>stats := [], excludedCount := 0\<rparr>)"

subsection \<open>Directories\<close>

text \<open>Lines 214 to 223 of \<^verbatim>\<open>processDirectory\<close>: one date of a file's statistics is
  merged into \<^verbatim>\<open>allStats\<close>.\<close>

definition mergeDate :: "statsMap \<Rightarrow> string \<times> dailyAggregate \<Rightarrow> statsMap" where
  "mergeDate allStats entry =
     (let date = fst entry; f = snd entry
      in case map_of allStats date of
           None \<Rightarrow> AList.update date f allStats
         | Some a \<Rightarrow>
             let a1 = a\<lparr>dayCount := dayCount a + dayCount f,
                        nightCount := nightCount a + nightCount f,
                        totalCount := totalCount a + totalCount f\<rparr>;
                 a2 = (if maxDistance f > maxDistance a1
                       then a1\<lparr>maxDistance := maxDistance f,
                               maxDistanceMMSI := maxDistanceMMSI f\<rparr>
                       else a1)
             in AList.update date a2 allStats)"

definition mergeStats :: "statsMap \<Rightarrow> statsMap \<Rightarrow> statsMap" where
  "mergeStats allStats fileStats = fold (\<lambda>entry acc. mergeDate acc entry) fileStats allStats"

datatype entry = File string "line list" | Directory string "entry list" | Other string

text \<open>\<^verbatim>\<open>processDir\<close> over the entries of a directory, depth first. The state is
  \<^verbatim>\<open>allStats\<close> and the shared accumulators.\<close>

fun processDir ::
  "(real \<Rightarrow> real \<Rightarrow> real) \<Rightarrow> bool \<Rightarrow> int set \<Rightarrow> entry list
     \<Rightarrow> statsMap \<times> real option pstate \<Rightarrow> statsMap \<times> real option pstate" where
  "processDir err debugMode excludeMMSIs [] s = s"
| "processDir err debugMode excludeMMSIs (Directory name sub # es) s =
     processDir err debugMode excludeMMSIs es (processDir err debugMode excludeMMSIs sub s)"
| "processDir err debugMode excludeMMSIs (File name lines # es) s =
     processDir err debugMode excludeMMSIs es
       (if endsWith name ''.json'' \<or> endsWith name ''.json.xz''
        then (let st = processFile err debugMode excludeMMSIs lines (snd s)
              in (mergeStats (fst s) (stats st), st))
        else s)"
| "processDir err debugMode excludeMMSIs (Other name # es) s =
     processDir err debugMode excludeMMSIs es s"

definition processDirectory ::
  "(real \<Rightarrow> real \<Rightarrow> real) \<Rightarrow> bool \<Rightarrow> int set \<Rightarrow> entry list \<Rightarrow> real option pstate \<Rightarrow> real option pstate" where
  "processDirectory err debugMode excludeMMSIs entries acc =
     (let r = processDir err debugMode excludeMMSIs entries ([], acc)
      in (snd r)\<lparr>stats := fst r\<rparr>)"

section \<open>The main program\<close>

subsection \<open>Arguments and the input path\<close>

text \<open>\<^verbatim>\<open>displayPort\<close> and \<^verbatim>\<open>apiKey\<close>; \<open>None\<close> is \<^verbatim>\<open>undefined\<close> or NaN.\<close>

definition displayPort :: "string list \<Rightarrow> int option" where
  "displayPort args =
     (case find (\<lambda>arg. startsWith arg ''--display'') args of
        None \<Rightarrow> None
      | Some displayArg \<Rightarrow>
          if displayArg = ''--display'' then Some 9001
          else if CHR ''='' \<in> set displayArg then parseInt (splitOn CHR ''='' displayArg ! 1)
          else None)"

definition apiKey :: "string list \<Rightarrow> string option" where
  "apiKey args =
     (case find (\<lambda>arg. startsWith arg ''--apikey='') args of
        None \<Rightarrow> None
      | Some apiKeyArg \<Rightarrow> Some (splitOn CHR ''='' apiKeyArg ! 1))"

definition filteredArgs :: "string list \<Rightarrow> string list" where
  "filteredArgs args =
     filter (\<lambda>arg. arg \<noteq> ''--debug'' \<and> \<not> startsWith arg ''--display''
                  \<and> \<not> startsWith arg ''--min-distance'' \<and> \<not> startsWith arg ''--exclude''
                  \<and> \<not> startsWith arg ''--apikey'') args"

text \<open>
  How \<^verbatim>\<open>main\<close> goes on after its arguments:
  \<^item> \<open>UsageExit c\<close>: the usage text is printed and \<^verbatim>\<open>process.exit(c)\<close> is called;
  \<^item> \<open>ApiKeyExit c\<close>: the error about \<^verbatim>\<open>--apikey\<close> is printed and \<^verbatim>\<open>process.exit(c)\<close>
    is called;
  \<^item> \<open>Rejected\<close>: \<^verbatim>\<open>fs.statSync\<close> throws, the promise of \<^verbatim>\<open>main\<close> is rejected and
    \<^verbatim>\<open>main().catch(console.error)\<close> prints the error; the usage text is not printed and
    \<^verbatim>\<open>process.exit\<close> is not called;
  \<^item> \<open>Proceeds path isDir\<close>: the input is read.
  The file system is the parameter \<open>files\<close>: the paths that exist, each with whether it
  is a directory; \<^verbatim>\<open>fs.statSync\<close> throws for any other path.
\<close>

datatype outcome = UsageExit nat | ApiKeyExit nat | Rejected | Proceeds string bool

definition main_start :: "string list \<Rightarrow> (string \<times> bool) list \<Rightarrow> outcome" where
  "main_start args files =
     (if length (filteredArgs args) = 0 then UsageExit 1
      else if (case displayPort args of None \<Rightarrow> False | Some port \<Rightarrow> port \<noteq> 0)
              \<and> \<not> (case apiKey args of None \<Rightarrow> False | Some k \<Rightarrow> k \<noteq> [])
      then ApiKeyExit 1
      else
        let inputPath = filteredArgs args ! 0
        in case map_of files inputPath of
             None \<Rightarrow> Rejected
           | Some isDir \<Rightarrow> Proceeds inputPath isDir)"

text \<open>The exit status of the process where the program fixes it: the argument of
  \<^verbatim>\<open>process.exit\<close>, and \<open>0\<close> after a rejection that \<^verbatim>\<open>console.error\<close> has handled.\<close>

fun exitStatus :: "outcome \<Rightarrow> nat option" where
  "exitStatus (UsageExit c) = Some c"
| "exitStatus (ApiKeyExit c) = Some c"
| "exitStatus Rejected = Some 0"
| "exitStatus (Proceeds path isDir) = None"

subsection \<open>Post-filter\<close>

text \<open>Lines 468 to 471 and 475 to 478: the indices that pass, then the three arrays
  read at those indices. The three arrays have the same length in \<^verbatim>\<open>main\<close>;
  \<open>minDist\<close> and \<open>maxDist\<close> are \<^verbatim>\<open>minDistance\<close> and \<^verbatim>\<open>maxDistance\<close>.\<close>

definition minFilter ::
  "real \<Rightarrow> real list \<times> real list \<times> real position list
     \<Rightarrow> real list \<times> real list \<times> real position list" where
  "minFilter minDist f =
     (let indices = filter (\<lambda>i. i \<ge> 0)
                      (map (\<lambda>i. if fst f ! i \<ge> minDist then int i else - 1)
                         [0..<length (fst f)])
      in (map (\<lambda>i. fst f ! nat i) indices,
          map (\<lambda>i. fst (snd f) ! nat i) indices,
          map (\<lambda>i. snd (snd f) ! nat i) indices))"

definition maxFilter ::
  "real \<Rightarrow> real list \<times> real list \<times> real position list
     \<Rightarrow> real list \<times> real list \<times> real position list" where
  "maxFilter maxDist f =
     (let indices = filter (\<lambda>i. i \<ge> 0)
                      (map (\<lambda>i. if fst f ! i \<le> maxDist then int i else - 1)
                         [0..<length (fst f)])
      in (map (\<lambda>i. fst f ! nat i) indices,
          map (\<lambda>i. fst (snd f) ! nat i) indices,
          map (\<lambda>i. snd (snd f) ! nat i) indices))"

definition postFilter ::
  "real \<Rightarrow> real \<Rightarrow> real list \<times> real list \<times> real position list
     \<Rightarrow> real list \<times> real list \<times> real position list" where
  "postFilter minDist maxDist f =
     (let f1 = (if minDist > 0 then minFilter minDist f else f)
      in if maxDist > 0 then maxFilter maxDist f1 else f1)"

subsection \<open>Statistics\<close>

text \<open>Line 555: the sector counts of a bearing sequence, counted afresh.\<close>

definition sectorCounts :: "real list \<Rightarrow> (int \<times> nat) list" where
  "sectorCounts bearings = fold (\<lambda>sector counts. countSector counts sector) (map sectorOf bearings) []"

text \<open>Lines 564 to 567 and the rows printed from them: the sectors in ascending order
  with their counts.\<close>

definition sectorRows :: "(int \<times> nat) list \<Rightarrow> (int \<times> nat) list" where
  "sectorRows counts =
     map (\<lambda>b. (b, the (map_of counts b)))
       (filter (\<lambda>b. (case map_of counts b of None \<Rightarrow> False | Some c \<Rightarrow> c > 0))
          (sort (map fst counts)))"

record report =
  filteredDistances :: "real list"
  filteredBearings :: "real list"
  filteredPositions :: "real position list"
  distribution :: "distribution option"
  reportedCounts :: "(int \<times> nat) list"
  reportedRows :: "(int \<times> nat) list"
  beamStats :: "beamWidthStats option"

text \<open>\<^verbatim>\<open>main\<close> from line 462 on, without the printing, for accumulators whose distances
  are numbers. \<^verbatim>\<open>filteredDistances\<close> is the
  array that \<^verbatim>\<open>calculateDistribution\<close> is given and sorts; \<^verbatim>\<open>calculateBeamWidth\<close>
  receives the same array afterwards. The field \<open>filteredDistances\<close> of the result is
  that array when \<^verbatim>\<open>main\<close> ends.\<close>

definition main_report :: "real \<Rightarrow> real \<Rightarrow> real pstate \<Rightarrow> report" where
  "main_report minDist maxDist st =
     (let f = postFilter minDist maxDist (allDistances st, allBearings st, allPositions st);
          fDistances = fst f;
          fBearings = fst (snd f);
          fPositions = snd (snd f);
          d = calculateDistribution fDistances;
          fDistances' = snd d;
          counts = (if minDist > 0 \<and> length fBearings > 0
                    then sectorCounts fBearings
                    else bearingCounts st)
      in \<lparr>filteredDistances = fDistances',
          filteredBearings = fBearings,
          filteredPositions = fPositions,
          distribution = fst d,
          reportedCounts = counts,
          reportedRows = sectorRows counts,
          beamStats = calculateBeamWidth fBearings fDistances'\<rparr>)"

subsection \<open>The selection the post-filter is specified by\<close>

text \<open>The indices \<open>i\<close> with
  \<open>(minDistance \<le> 0 \<or> distance[i] \<ge> minDistance) \<and> (maxDistance \<le> 0 \<or> distance[i] \<le> maxDistance)\<close>,
  in ascending order. This definition follows the specification, not the code; the code
  is \<^const>\<open>postFilter\<close>.\<close>

definition retained :: "real \<Rightarrow> real \<Rightarrow> real list \<Rightarrow> nat list" where
  "retained minDist maxDist ds =
     filter (\<lambda>i. (minDist \<le> 0 \<or> ds ! i \<ge> minDist) \<and> (maxDist \<le> 0 \<or> ds ! i \<le> maxDist))
       [0..<length ds]"

text \<open>The indices at which one pass of the filter keeps a sample.\<close>

definition keepIndices :: "(real \<Rightarrow> bool) \<Rightarrow> real list \<Rightarrow> nat list" where
  "keepIndices P ds = filter (\<lambda>i. P (ds ! i)) [0..<length ds]"

subsection \<open>The options of the usage text\<close>

text \<open>An argument that is one of the six options the usage text lists (lines 426 to 431);
  any other argument is an input path. This definition follows the usage text; the
  arguments the code removes before it looks for the path are \<^const>\<open>filteredArgs\<close>.\<close>

definition isOption :: "string \<Rightarrow> bool" where
  "isOption arg =
     (arg = ''--debug'' \<or> startsWith arg ''--display'' \<or> startsWith arg ''--apikey''
      \<or> startsWith arg ''--min-distance'' \<or> startsWith arg ''--max-distance''
      \<or> startsWith arg ''--exclude'')"

subsection \<open>The initial accumulators\<close>

text \<open>Lines 446 to 451 of \<^verbatim>\<open>main\<close>.\<close>

definition initialState :: "'d pstate" where
  "initialState =
     \<lparr>stats = [], excludedCount = 0, allDistances = [], bearingCounts = [], allBearings = [],
      debugDistances = [], allPositions = []\<rparr>"

subsection \<open>Rounding errors of the haversine term\<close>

text \<open>The error function of exact arithmetic: no rounding error at any point (as the
  doubles have none at the station itself).\<close>

definition exactly :: "real \<Rightarrow> real \<Rightarrow> real" where
  "exactly la lo = 0"

text \<open>A valid point next to the antipode of the station.\<close>

definition NEAR_LAT :: real where
  "NEAR_LAT = - 51.500929982096466"

definition NEAR_LON :: real where
  "NEAR_LON = 179.79328878657643"

text \<open>The rounding error of double arithmetic at that point: there line 23 evaluates to
  \<^verbatim>\<open>1.0000000000000002\<close>, which is \<open>1 + 1 / 2 ^ 52\<close>, while the exact term is at most 1.
  Elsewhere the function is \<open>0\<close>.\<close>

definition doubleError :: "real \<Rightarrow> real \<Rightarrow> real" where
  "doubleError la lo =
     (if la = NEAR_LAT \<and> lo = NEAR_LON
      then (1 + 1 / 2 ^ 52) - haversine_a MY_LAT MY_LON la lo
      else 0)"

subsection \<open>The invariant of the daily aggregates\<close>

definition balanced :: "dailyAggregate \<Rightarrow> bool" where
  "balanced a = (dayCount a + nightCount a = totalCount a)"

definition stats_inv :: "statsMap \<Rightarrow> bool" where
  "stats_inv st = list_all (\<lambda>entry. balanced (snd entry)) st"

subsection \<open>The rotations of the wraparound search\<close>

text \<open>The offsets the loop of \<^verbatim>\<open>findPercentileRange\<close> visits, the span of the window at
  an offset (\<^verbatim>\<open>adjMax - adjMin\<close>), and the bounds of that window rotated back
  (\<^verbatim>\<open>(adjMin - offset + 360) % 360\<close> and \<^verbatim>\<open>(adjMax - offset + 360) % 360\<close>).\<close>

definition rotationOffsets :: "nat list" where
  "rotationOffsets = map (\<lambda>k. 10 * k) [0..<36]"

definition windowSpan :: "real list \<Rightarrow> nat \<Rightarrow> nat \<Rightarrow> nat \<Rightarrow> real" where
  "windowSpan sortedBearings startIdx endIdx offset =
     adjusted sortedBearings (real offset) ! endIdx - adjusted sortedBearings (real offset) ! startIdx"

definition unrotated :: "real list \<Rightarrow> nat \<Rightarrow> nat \<Rightarrow> nat \<Rightarrow> real \<times> real" where
  "unrotated sortedBearings startIdx endIdx offset =
     (js_rem (adjusted sortedBearings (real offset) ! startIdx - real offset + 360) 360,
      js_rem (adjusted sortedBearings (real offset) ! endIdx - real offset + 360) 360)"

text \<open>The offsets still to come when the loop is at \<open>offset\<close>.\<close>

definition later :: "nat \<Rightarrow> nat set" where
  "later offset = {o'. offset \<le> o' \<and> o' < 360 \<and> (o' - offset) mod 10 = 0}"

section \<open>The post-filter selects by index\<close>

lemma map_nth_filter: "map ((!) xs) (filter (\<lambda>j. P (xs ! j)) [0..<length xs]) = filter P xs"
proof -
  have "filter P xs = filter P (map ((!) xs) [0..<length xs])"
    by (simp add: map_nth)
  also have "\<dots> = map ((!) xs) (filter (P \<circ> (!) xs) [0..<length xs])"
    by (simp only: filter_map)
  finally show ?thesis by (simp add: comp_def)
qed

lemma passing_indices:
  "filter (\<lambda>i. i \<ge> 0) (map (\<lambda>i. if P i then int i else - 1) ns) = map int (filter P ns)"
  by (induction ns) auto

lemma keepIndices_sub: "set (keepIndices P xs) \<subseteq> {..<length xs}"
  by (auto simp: keepIndices_def)

lemma minFilter_eq:
  "minFilter m (ds, bs, ps) =
     (map ((!) ds) (keepIndices (\<lambda>d. d \<ge> m) ds),
      map ((!) bs) (keepIndices (\<lambda>d. d \<ge> m) ds),
      map ((!) ps) (keepIndices (\<lambda>d. d \<ge> m) ds))"
  by (simp add: minFilter_def keepIndices_def passing_indices comp_def)

lemma maxFilter_eq:
  "maxFilter m (ds, bs, ps) =
     (map ((!) ds) (keepIndices (\<lambda>d. d \<le> m) ds),
      map ((!) bs) (keepIndices (\<lambda>d. d \<le> m) ds),
      map ((!) ps) (keepIndices (\<lambda>d. d \<le> m) ds))"
  by (simp add: maxFilter_def keepIndices_def passing_indices comp_def)

lemma keepIndices_map:
  assumes "set K \<subseteq> {..<length ds}"
  shows "map ((!) K) (keepIndices P (map ((!) ds) K)) = filter (\<lambda>i. P (ds ! i)) K"
proof -
  have "keepIndices P (map ((!) ds) K) = filter (\<lambda>j. P (ds ! (K ! j))) [0..<length K]"
    unfolding keepIndices_def by (auto intro: filter_cong)
  then show ?thesis
    using map_nth_filter [of K "\<lambda>i. P (ds ! i)"] by simp
qed

lemma reindex:
  assumes "set K' \<subseteq> {..<length K}"
  shows "map ((!) (map ((!) xs) K)) K' = map ((!) xs) (map ((!) K) K')"
  using assms by (auto simp: subset_iff)

text \<open>The second pass works on the output of the first; read through both, it selects
  from the original arrays.\<close>

lemma two_stage:
  "map ((!) (map ((!) xs) (keepIndices P ds))) (keepIndices Q (map ((!) ds) (keepIndices P ds)))
     = map ((!) xs) (filter (\<lambda>i. P (ds ! i) \<and> Q (ds ! i)) [0..<length ds])"
proof -
  let ?K = "keepIndices P ds"
  let ?K' = "keepIndices Q (map ((!) ds) ?K)"
  have sub: "set ?K' \<subseteq> {..<length ?K}"
    using keepIndices_sub [of Q "map ((!) ds) ?K"] by simp
  have "map ((!) (map ((!) xs) ?K)) ?K' = map ((!) xs) (map ((!) ?K) ?K')"
    by (rule reindex [OF sub])
  also have "map ((!) ?K) ?K' = filter (\<lambda>i. Q (ds ! i)) ?K"
    by (rule keepIndices_map [OF keepIndices_sub])
  also have "\<dots> = filter (\<lambda>i. P (ds ! i) \<and> Q (ds ! i)) [0..<length ds]"
    by (auto simp: keepIndices_def intro: filter_cong)
  finally show ?thesis .
qed

text \<open>
  Claim C7. For index-aligned distance, bearing and position sequences and bounds
  \<open>minDistance\<close>, \<open>maxDistance\<close> (each disabled when not positive), the post-filter returns
  the three sequences read at exactly the indices \<open>i\<close> with
  \<open>(minDistance \<le> 0 \<or> distance[i] \<ge> minDistance) \<and> (maxDistance \<le> 0 \<or> distance[i] \<le> maxDistance)\<close>,
  in ascending index order and with the same indices for all three.
\<close>

theorem postFilter_retains:
  assumes lb: "length bs = length ds" and lp: "length ps = length ds"
  shows "postFilter minDist maxDist (ds, bs, ps) =
     (map ((!) ds) (retained minDist maxDist ds),
      map ((!) bs) (retained minDist maxDist ds),
      map ((!) ps) (retained minDist maxDist ds))"
proof -
  consider (both) "minDist > 0" "maxDist > 0" | (mn) "minDist > 0" "\<not> maxDist > 0"
    | (mx) "\<not> minDist > 0" "maxDist > 0" | (none) "\<not> minDist > 0" "\<not> maxDist > 0"
    by blast
  then show ?thesis
  proof cases
    case both
    then show ?thesis
      by (simp add: postFilter_def minFilter_eq maxFilter_eq two_stage retained_def not_le)
  next
    case mn
    then show ?thesis
      by (simp add: postFilter_def minFilter_eq keepIndices_def retained_def not_le)
  next
    case mx
    then show ?thesis
      by (simp add: postFilter_def maxFilter_eq keepIndices_def retained_def not_le)
  next
    case none
    then show ?thesis
      using map_nth [of ds] map_nth [of bs] map_nth [of ps] lb lp
      by (simp add: postFilter_def retained_def not_le)
  qed
qed

text \<open>The example of the specification: bounds 10 and 50 on the distances
  \<open>[5, 15, 30, 60]\<close> keep the samples at indices 1 and 2.\<close>

theorem postFilter_retains_witness:
  "postFilter 10 50
     ([5, 15, 30, 60], [100, 200, 300, 50],
      [\<lparr>pos_lat = 51, pos_lon = 0, pos_bearing = 100, pos_distance = 5, pos_mmsi = 1\<rparr>,
       \<lparr>pos_lat = 52, pos_lon = 0, pos_bearing = 200, pos_distance = 15, pos_mmsi = 2\<rparr>,
       \<lparr>pos_lat = 53, pos_lon = 0, pos_bearing = 300, pos_distance = 30, pos_mmsi = 3\<rparr>,
       \<lparr>pos_lat = 54, pos_lon = 0, pos_bearing = 50, pos_distance = 60, pos_mmsi = 4\<rparr>]) =
     ([15, 30], [200, 300],
      [\<lparr>pos_lat = 52, pos_lon = 0, pos_bearing = 200, pos_distance = 15, pos_mmsi = 2\<rparr>,
       \<lparr>pos_lat = 53, pos_lon = 0, pos_bearing = 300, pos_distance = 30, pos_mmsi = 3\<rparr>])"
  using postFilter_retains [of "[100, 200, 300, 50]" "[5, 15, 30, 60]"
      "[\<lparr>pos_lat = 51, pos_lon = 0, pos_bearing = 100, pos_distance = 5, pos_mmsi = 1\<rparr>,
        \<lparr>pos_lat = 52, pos_lon = 0, pos_bearing = 200, pos_distance = 15, pos_mmsi = 2\<rparr>,
        \<lparr>pos_lat = 53, pos_lon = 0, pos_bearing = 300, pos_distance = 30, pos_mmsi = 3\<rparr>,
        \<lparr>pos_lat = 54, pos_lon = 0, pos_bearing = 50, pos_distance = 60, pos_mmsi = 4\<rparr>]" 10 50]
  by (simp add: retained_def upt_rec [of _ 4] numeral_eq_Suc)

section \<open>The histogram when all distances are equal\<close>

text \<open>With \<open>min = max\<close> the bin size is \<open>0\<close> and \<^verbatim>\<open>(dist - min) / binSize\<close> is \<^verbatim>\<open>0 / 0\<close>, NaN;
  \<^verbatim>\<open>Math.floor\<close> and \<^verbatim>\<open>Math.min(..., 9)\<close> keep it NaN, and \<^verbatim>\<open>bins[NaN]++\<close> changes no bin.\<close>

lemma binKey_degenerate: "binKey d d 0 = NaN"
  by (simp add: binKey_def js_div_def)

text \<open>
  Claim C2. The claim is that for a non-empty filtered distance sequence whose minimum
  equals its maximum, such as \<open>[5, 5, 5]\<close>, the distribution reports \<open>min = max\<close> and counts
  every value in bin 9. Evaluated on \<open>[5, 5, 5]\<close>, the code reports \<open>min = max = 5\<close> and
  \<open>count = 3\<close>, but all ten bins stay \<open>0\<close>: no value is counted in bin 9.
\<close>

theorem calculateDistribution_equal_distances:
  "fst (calculateDistribution [5, 5, 5]) =
     Some \<lparr>bins = [0, 0, 0, 0, 0, 0, 0, 0, 0, 0],
           binRanges = [(5, 5), (5, 5), (5, 5), (5, 5), (5, 5), (5, 5), (5, 5), (5, 5), (5, 5), (5, 5)],
           min_d = 5, max_d = 5, count_d = 3\<rparr>"
  by (simp add: calculateDistribution_def binKey_def js_div_def increment_at_def Let_def
      upt_rec [of _ 10] numeral_eq_Suc)

text \<open>
  Claim C5. The claim is that for every non-empty filtered distance sequence the ten bin
  counts sum to the length of the sequence. Evaluated on the two distances \<open>[7, 7]\<close>, the
  code returns bins that sum to \<open>0\<close> next to \<open>count = 2\<close>.
\<close>

theorem calculateDistribution_bins_sum:
  "map_option (\<lambda>d. (sum_list (bins d), count_d d)) (fst (calculateDistribution [7, 7])) = Some (0, 2)"
  by (simp add: calculateDistribution_def binKey_def js_div_def increment_at_def Let_def)

subsection \<open>Distances that are not all equal\<close>

text \<open>When the least distance is below the greatest, the bin size is positive, every
  value selects one of the bins 0 to 9, and the bins sum to the number of values.\<close>

lemma increment_at_in_range:
  assumes "0 \<le> k" and "k < int (length bs)"
  shows "length (increment_at bs (Fin (of_int k))) = length bs"
    and "sum_list (increment_at bs (Fin (of_int k))) = sum_list bs + 1"
proof -
  have n: "nat k < length bs" using assms by linarith
  have eq: "increment_at bs (Fin (of_int k)) = bs[nat k := bs ! nat k + 1]"
    using assms by (simp add: increment_at_def)
  show "length (increment_at bs (Fin (of_int k))) = length bs" by (simp add: eq)
  show "sum_list (increment_at bs (Fin (of_int k))) = sum_list bs + 1"
    using n by (simp add: eq sum_list_update)
qed

lemma binKey_spread:
  assumes "mn \<le> d" and "0 < binSize"
  shows "\<exists>k. 0 \<le> k \<and> k < 10 \<and> binKey d mn binSize = Fin (of_int k)"
proof -
  let ?q = "\<lfloor>(d - mn) / binSize\<rfloor>"
  have "0 \<le> (d - mn) / binSize" using assms by simp
  then have q: "0 \<le> ?q" by simp
  have "binKey d mn binSize = Fin (min (of_int ?q) 9)"
    using assms by (simp add: binKey_def js_div_def)
  also have "min (of_int ?q) (9::real) = of_int (min ?q 9)" by simp
  finally have "binKey d mn binSize = Fin (of_int (min ?q 9))" .
  moreover have "0 \<le> min ?q 9" "min ?q 9 < 10" using q by simp_all
  ultimately show ?thesis by blast
qed

lemma fold_bins_sum:
  assumes "\<forall>d \<in> set ds. mn \<le> d" and "0 < binSize" and "length bs = 10"
  shows "length (fold (\<lambda>d bs. increment_at bs (binKey d mn binSize)) ds bs) = 10
       \<and> sum_list (fold (\<lambda>d bs. increment_at bs (binKey d mn binSize)) ds bs)
           = sum_list bs + length ds"
  using assms
proof (induction ds arbitrary: bs)
  case Nil
  then show ?case by simp
next
  case (Cons d ds)
  from Cons.prems obtain k where k: "0 \<le> k" "k < 10" "binKey d mn binSize = Fin (of_int k)"
    using binKey_spread [of mn d binSize] by auto
  have kb: "k < int (length bs)" using k(2) Cons.prems(3) by simp
  let ?bs = "increment_at bs (binKey d mn binSize)"
  have l: "length ?bs = 10" and s: "sum_list ?bs = sum_list bs + 1"
    using increment_at_in_range [OF k(1) kb] Cons.prems(3) by (simp_all add: k(3))
  from Cons.IH [OF _ Cons.prems(2) l] Cons.prems(1) show ?case
    by (simp add: s)
qed

lemma sorted_first_least: "sorted xs \<Longrightarrow> d \<in> set xs \<Longrightarrow> xs ! 0 \<le> (d::real)"
  by (cases xs) auto

lemma sorted_last_greatest:
  assumes "sorted xs" and "d \<in> set xs"
  shows "(d::real) \<le> xs ! (length xs - 1)"
proof -
  from assms(2) obtain i where i: "i < length xs" "xs ! i = d"
    by (auto simp: in_set_conv_nth)
  then have "xs ! i \<le> xs ! (length xs - 1)"
    using assms(1) by (intro sorted_nth_mono) simp_all
  then show ?thesis using i by simp
qed

lemma calculateDistribution_spread:
  assumes "distances \<noteq> []" and "Min (set distances) < Max (set distances)"
  shows "\<exists>r. fst (calculateDistribution distances) = Some r
           \<and> sum_list (bins r) = length distances \<and> count_d r = length distances"
proof -
  let ?s = "sort distances"
  have len: "0 < length ?s" using assms(1) by simp
  have first: "?s ! 0 \<in> set distances" and last: "?s ! (length ?s - 1) \<in> set distances"
    using len nth_mem [of 0 ?s] nth_mem [of "length ?s - 1" ?s] by simp_all
  have low: "\<forall>d \<in> set ?s. ?s ! 0 \<le> d"
    using sorted_first_least [of ?s] by simp
  have high: "\<forall>d \<in> set ?s. d \<le> ?s ! (length ?s - 1)"
    using sorted_last_greatest [of ?s] by simp
  have mn: "Min (set distances) = ?s ! 0"
    using low first by (intro Min_eqI) simp_all
  have mx: "Max (set distances) = ?s ! (length ?s - 1)"
    using high last by (intro Max_eqI) simp_all
  have pos: "0 < (?s ! (length ?s - 1) - ?s ! 0) / 10"
    using assms(2) by (simp add: mn mx)
  from fold_bins_sum [OF low pos, of "replicate 10 0"]
  have "sum_list (fold (\<lambda>d bs. increment_at bs (binKey d (?s ! 0) ((?s ! (length ?s - 1) - ?s ! 0) / 10)))
          ?s (replicate 10 0)) = length distances"
    by simp
  then show ?thesis
    using assms(1) by (simp add: calculateDistribution_def Let_def)
qed

section \<open>The distance array after the distribution\<close>

text \<open>
  Claim C1. The claim is that computing the distribution leaves the filtered distance
  sequence unchanged, so that the beam-width analysis pairs each bearing with the distance
  of the same sample. Evaluated on three samples with distances \<open>[3, 1, 2]\<close> and bearings
  \<open>[10, 20, 30]\<close> and no distance bounds: after the distribution the distance array is
  \<open>[1, 2, 3]\<close> while the bearings are still \<open>[10, 20, 30]\<close>, and the top-5% analysis reports
  bearing \<open>30\<close> for the farthest sample (distance \<open>3\<close>), whose bearing is \<open>10\<close>.
\<close>

theorem main_report_distances_sorted:
  "filteredDistances (main_report 0 0
      \<lparr>stats = [], excludedCount = 0, allDistances = [3, 1, 2],
       bearingCounts = [(0, 1), (15, 1), (30, 1)],
       allBearings = [10, 20, 30], debugDistances = [],
       allPositions =
         [\<lparr>pos_lat = 51.55017, pos_lon = - 0.19276, pos_bearing = 10, pos_distance = 3, pos_mmsi = 1\<rparr>,
          \<lparr>pos_lat = 51.51659, pos_lon = - 0.19755, pos_bearing = 20, pos_distance = 1, pos_mmsi = 2\<rparr>,
          \<lparr>pos_lat = 51.52980, pos_lon = - 0.17994, pos_bearing = 30, pos_distance = 2, pos_mmsi = 3\<rparr>]\<rparr>) = [1, 2, 3]
   \<and> filteredBearings (main_report 0 0
      \<lparr>stats = [], excludedCount = 0, allDistances = [3, 1, 2],
       bearingCounts = [(0, 1), (15, 1), (30, 1)],
       allBearings = [10, 20, 30], debugDistances = [],
       allPositions =
         [\<lparr>pos_lat = 51.55017, pos_lon = - 0.19276, pos_bearing = 10, pos_distance = 3, pos_mmsi = 1\<rparr>,
          \<lparr>pos_lat = 51.51659, pos_lon = - 0.19755, pos_bearing = 20, pos_distance = 1, pos_mmsi = 2\<rparr>,
          \<lparr>pos_lat = 51.52980, pos_lon = - 0.17994, pos_bearing = 30, pos_distance = 2, pos_mmsi = 3\<rparr>]\<rparr>) = [10, 20, 30]
   \<and> map_option (\<lambda>b. md_bearings (beam_maxDistance b)) (beamStats (main_report 0 0
      \<lparr>stats = [], excludedCount = 0, allDistances = [3, 1, 2],
       bearingCounts = [(0, 1), (15, 1), (30, 1)],
       allBearings = [10, 20, 30], debugDistances = [],
       allPositions =
         [\<lparr>pos_lat = 51.55017, pos_lon = - 0.19276, pos_bearing = 10, pos_distance = 3, pos_mmsi = 1\<rparr>,
          \<lparr>pos_lat = 51.51659, pos_lon = - 0.19755, pos_bearing = 20, pos_distance = 1, pos_mmsi = 2\<rparr>,
          \<lparr>pos_lat = 51.52980, pos_lon = - 0.17994, pos_bearing = 30, pos_distance = 2, pos_mmsi = 3\<rparr>]\<rparr>)) = Some [30]
   \<and> top5Percent [10, 20, 30] [3, 1, 2] = [(10, 3)]"
  by (simp add: main_report_def postFilter_def calculateDistribution_def calculateBeamWidth_def
      top5Percent_def top5PercentCount_def sortedByDistance_def combined_def Let_def
      upt_rec [of _ 3] numeral_eq_Suc)

section \<open>The input path\<close>

text \<open>Line 421 removes five of the six options from the arguments and leaves a
  \<^verbatim>\<open>--max-distance\<close> option in, although line 407 parses it and line 430 lists it. With
  that option and no input path, the option itself is taken for the path, \<^verbatim>\<open>fs.statSync\<close>
  throws, and the usage text is not printed. This is a slip of the filter; the theorem of
  claim C4 below says nothing about argument lists with that option.\<close>

lemma main_start_max_distance_only:
  "list_all isOption [''--max-distance=50'']
   \<and> main_start [''--max-distance=50''] [(''data.json'', False)] = Rejected
   \<and> exitStatus (main_start [''--max-distance=50''] [(''data.json'', False)]) = Some 0"
  by (simp add: isOption_def main_start_def filteredArgs_def startsWith_def displayPort_def
      apiKey_def)

text \<open>
  Claim C4, as amended. If the input path argument is missing, that is, every argument
  is an option of the usage text (in particular when there is no argument at all), the
  program prints the usage text and exits with status 1 before any input is read,
  whatever the file system holds. Argument lists with a \<^verbatim>\<open>--max-distance\<close> option are left
  out: there the slip above decides, and the theorem neither promises nor denies the
  usage text.
\<close>

theorem main_start_no_path:
  assumes "list_all isOption args"
    and "list_all (\<lambda>arg. \<not> startsWith arg ''--max-distance'') args"
  shows "main_start args files = UsageExit 1 \<and> exitStatus (main_start args files) = Some 1"
proof -
  have "\<forall>arg \<in> set args. arg = ''--debug'' \<or> startsWith arg ''--display''
          \<or> startsWith arg ''--min-distance'' \<or> startsWith arg ''--exclude''
          \<or> startsWith arg ''--apikey''"
    using assms by (auto simp: list_all_iff isOption_def)
  then have "filteredArgs args = []"
    unfolding filteredArgs_def filter_empty_conv by blast
  then show ?thesis by (simp add: main_start_def)
qed

theorem main_start_no_path_witness:
  "list_all isOption [''--debug'', ''--min-distance=3'']
   \<and> \<not> startsWith ''--debug'' ''--max-distance''
   \<and> \<not> startsWith ''--min-distance=3'' ''--max-distance''
   \<and> main_start [''--debug'', ''--min-distance=3''] [(''data.json'', False)] = UsageExit 1
   \<and> exitStatus (main_start [''--debug'', ''--min-distance=3''] [(''data.json'', False)]) = Some 1"
  using main_start_no_path [of "[''--debug'', ''--min-distance=3'']" "[(''data.json'', False)]"]
  by (simp add: isOption_def startsWith_def)

text \<open>The claim as stated fails for a path that does not exist: \<^verbatim>\<open>fs.statSync\<close> throws,
  the error is printed by \<^verbatim>\<open>console.error\<close>, the usage text is not printed and the exit
  status is \<open>0\<close>.\<close>

theorem main_start_nonexistent_path:
  "main_start [''nosuch.json''] [(''data.json'', False)] = Rejected
   \<and> main_start [''nosuch.json''] [(''data.json'', False)] \<noteq> UsageExit 1
   \<and> exitStatus (main_start [''nosuch.json''] [(''data.json'', False)]) = Some 0"
  by (simp add: main_start_def filteredArgs_def startsWith_def displayPort_def apiKey_def)

section \<open>Sector counts after the post-filter\<close>

lemma map_of_countSector:
  "map_of (countSector counts s) k =
     (if k = s then Some ((case map_of counts s of None \<Rightarrow> 0 | Some c \<Rightarrow> c) + 1)
      else map_of counts k)"
  by (simp add: countSector_def update_conv')

lemma map_of_fold_countSector:
  "map_of (fold (\<lambda>sector counts. countSector counts sector) ss c0) k =
     (if k \<in> set ss
      then Some ((case map_of c0 k of None \<Rightarrow> 0 | Some c \<Rightarrow> c) + count_list ss k)
      else map_of c0 k)"
proof (induction ss arbitrary: c0)
  case Nil
  then show ?case by simp
next
  case (Cons s ss)
  show ?case
    by (simp add: Cons.IH map_of_countSector split: option.splits)
qed

lemma count_list_map: "count_list (map f xs) k = length (filter (\<lambda>x. f x = k) xs)"
  by (induction xs) auto

text \<open>Counting afresh gives, for each sector, the number of bearings that fall in it.\<close>

lemma map_of_sectorCounts:
  "map_of (sectorCounts bearings) s =
     (if \<exists>b \<in> set bearings. sectorOf b = s
      then Some (length (filter (\<lambda>b. sectorOf b = s) bearings))
      else None)"
  by (auto simp: sectorCounts_def map_of_fold_countSector count_list_map)

text \<open>
  Claim C8, as amended. For every run with \<open>minDistance > 0\<close>: when the filtered bearing
  sequence is not empty, the sector counts reported are counted afresh from the filtered
  bearings (each sector's count is the number of filtered bearings in that sector); when
  the filtered bearing sequence is empty, the counts of the unfiltered aggregation are
  reported unchanged.
\<close>

theorem main_report_sector_counts:
  assumes "minDist > 0"
  shows "(filteredBearings (main_report minDist maxDist st) \<noteq> [] \<longrightarrow>
            reportedCounts (main_report minDist maxDist st)
              = sectorCounts (filteredBearings (main_report minDist maxDist st))
          \<and> map_of (reportedCounts (main_report minDist maxDist st)) s
              = (if \<exists>b \<in> set (filteredBearings (main_report minDist maxDist st)). sectorOf b = s
                 then Some (length (filter (\<lambda>b. sectorOf b = s)
                                     (filteredBearings (main_report minDist maxDist st))))
                 else None))
       \<and> (filteredBearings (main_report minDist maxDist st) = [] \<longrightarrow>
            reportedCounts (main_report minDist maxDist st) = bearingCounts st)"
proof -
  have 1: "filteredBearings (main_report minDist maxDist st) \<noteq> [] \<Longrightarrow>
      reportedCounts (main_report minDist maxDist st)
        = sectorCounts (filteredBearings (main_report minDist maxDist st))"
    using assms by (simp add: main_report_def Let_def)
  have 2: "filteredBearings (main_report minDist maxDist st) = [] \<Longrightarrow>
      reportedCounts (main_report minDist maxDist st) = bearingCounts st"
    by (simp add: main_report_def Let_def)
  show ?thesis
    using 1 2 by (simp add: map_of_sectorCounts)
qed

theorem main_report_sector_counts_witness:
  "(0::real) < 10
   \<and> filteredBearings (main_report 10 0
        \<lparr>stats = [], excludedCount = 0, allDistances = [5, 15], bearingCounts = [(0, 1), (30, 1)],
         allBearings = [10, 40], debugDistances = [],
         allPositions =
           [\<lparr>pos_lat = 51.58, pos_lon = - 0.18, pos_bearing = 10, pos_distance = 5, pos_mmsi = 1\<rparr>,
            \<lparr>pos_lat = 51.69, pos_lon = 0.05, pos_bearing = 40, pos_distance = 15, pos_mmsi = 2\<rparr>]\<rparr>)
       = [40]
   \<and> reportedCounts (main_report 10 0
        \<lparr>stats = [], excludedCount = 0, allDistances = [5, 15], bearingCounts = [(0, 1), (30, 1)],
         allBearings = [10, 40], debugDistances = [],
         allPositions =
           [\<lparr>pos_lat = 51.58, pos_lon = - 0.18, pos_bearing = 10, pos_distance = 5, pos_mmsi = 1\<rparr>,
            \<lparr>pos_lat = 51.69, pos_lon = 0.05, pos_bearing = 40, pos_distance = 15, pos_mmsi = 2\<rparr>]\<rparr>)
       = [(30, 1)]"
  using main_report_sector_counts [of 10 0
        "\<lparr>stats = [], excludedCount = 0, allDistances = [5, 15], bearingCounts = [(0, 1), (30, 1)],
         allBearings = [10, 40], debugDistances = [],
         allPositions =
           [\<lparr>pos_lat = 51.58, pos_lon = - 0.18, pos_bearing = 10, pos_distance = 5, pos_mmsi = 1\<rparr>,
            \<lparr>pos_lat = 51.69, pos_lon = 0.05, pos_bearing = 40, pos_distance = 15, pos_mmsi = 2\<rparr>]\<rparr>" 30]
  by (simp add: main_report_def postFilter_def minFilter_def sectorCounts_def countSector_def
      sectorOf_def Let_def)

text \<open>The claim as stated fails when the filter removes every sample: with
  \<open>minDistance = 10\<close> and one sample at distance \<open>5\<close>, the filtered bearing sequence is
  empty, and the count of the unfiltered aggregation is still reported.\<close>

theorem main_report_sector_counts_reused:
  "reportedCounts (main_report 10 0
        \<lparr>stats = [], excludedCount = 0, allDistances = [5], bearingCounts = [(0, 1)],
         allBearings = [10], debugDistances = [],
         allPositions =
           [\<lparr>pos_lat = 51.58, pos_lon = - 0.18, pos_bearing = 10, pos_distance = 5, pos_mmsi = 1\<rparr>]\<rparr>)
     = [(0, 1)]
   \<and> sectorCounts (filteredBearings (main_report 10 0
        \<lparr>stats = [], excludedCount = 0, allDistances = [5], bearingCounts = [(0, 1)],
         allBearings = [10], debugDistances = [],
         allPositions =
           [\<lparr>pos_lat = 51.58, pos_lon = - 0.18, pos_bearing = 10, pos_distance = 5, pos_mmsi = 1\<rparr>]\<rparr>))
     = []"
  by (simp add: main_report_def postFilter_def minFilter_def sectorCounts_def Let_def)

section \<open>Day and night counts add up\<close>

lemma stats_inv_update:
  "stats_inv st \<Longrightarrow> balanced a \<Longrightarrow> stats_inv (AList.update date a st)"
  by (induction st) (auto simp: stats_inv_def)

lemma stats_inv_map_of:
  "stats_inv st \<Longrightarrow> map_of st date = Some a \<Longrightarrow> balanced a"
  by (auto simp: stats_inv_def list_all_iff dest!: map_of_SomeD)

lemma balanced_fresh: "balanced freshAggregate"
  by (simp add: balanced_def freshAggregate_def)

lemma recordSample_inv:
  assumes "stats_inv st"
  shows "stats_inv (recordSample st date hour distance m)"
proof -
  let ?a0 = "case map_of st date of None \<Rightarrow> freshAggregate | Some a \<Rightarrow> a"
  have "balanced ?a0"
    using stats_inv_map_of [OF assms] balanced_fresh by (simp split: option.splits)
  then show ?thesis
    unfolding recordSample_def Let_def
    by (intro stats_inv_update [OF assms]) (simp add: balanced_def split: option.splits)
qed

lemma addSample_inv:
  assumes "stats_inv (stats st)"
  shows "stats_inv (stats (addSample data pl la lo distance st))"
  using assms by (simp add: addSample_def Let_def recordSample_inv split: option.splits)

lemma processLine_inv:
  assumes "stats_inv (stats st)"
  shows "stats_inv (stats (processLine err debugMode excludeMMSIs l st))"
  using assms
  by (auto simp: processLine_def addSample_inv split: line.splits option.splits)

lemma fold_processLine_inv:
  "stats_inv (stats st) \<Longrightarrow>
     stats_inv (stats (fold (processLine err debugMode excludeMMSIs) ls st))"
  by (induction ls arbitrary: st) (simp_all add: processLine_inv)

lemma processFile_inv: "stats_inv (stats (processFile err debugMode excludeMMSIs ls acc))"
  unfolding processFile_def
  by (rule fold_processLine_inv) (simp add: stats_inv_def)

lemma mergeDate_inv:
  assumes "stats_inv allStats" and "balanced (snd entry)"
  shows "stats_inv (mergeDate allStats entry)"
proof (cases "map_of allStats (fst entry)")
  case None
  then show ?thesis
    using assms by (simp add: mergeDate_def Let_def stats_inv_update)
next
  case (Some a)
  then have "balanced a" using assms(1) by (rule stats_inv_map_of [rotated])
  then show ?thesis
    using assms Some
    by (auto simp: mergeDate_def Let_def balanced_def intro!: stats_inv_update)
qed

lemma mergeStats_inv:
  "stats_inv allStats \<Longrightarrow> stats_inv fileStats \<Longrightarrow> stats_inv (mergeStats allStats fileStats)"
  unfolding mergeStats_def
proof (induction fileStats arbitrary: allStats)
  case Nil
  then show ?case by simp
next
  case (Cons e es)
  from Cons.prems(2) have e: "balanced (snd e)" and es: "stats_inv es"
    by (simp_all add: stats_inv_def)
  show ?case
    using Cons.IH [OF mergeDate_inv [OF Cons.prems(1) e] es] by simp
qed

lemma processDir_inv:
  "stats_inv (fst s) \<Longrightarrow> stats_inv (fst (processDir err debugMode excludeMMSIs es s))"
proof (induction err debugMode excludeMMSIs es s rule: processDir.induct)
  case (3 err debugMode excludeMMSIs name lines es s)
  then show ?case
    by (simp add: Let_def mergeStats_inv processFile_inv)
qed simp_all

lemma processDirectory_inv:
  "stats_inv (stats (processDirectory err debugMode excludeMMSIs entries acc))"
  unfolding processDirectory_def Let_def
  using processDir_inv [of "([], acc)" err debugMode excludeMMSIs entries]
  by (simp add: stats_inv_def)

text \<open>At the station itself the distance and the bearing are \<open>0\<close>.\<close>

lemma calculateDistance_same: "calculateDistance 0 la lo la lo = Some 0"
  by (simp add: calculateDistance_def haversine_a_def toRad_def js_sqrt_def atan2_def)

lemma calculateBearing_same: "calculateBearing la lo la lo = 0"
  by (simp add: calculateBearing_def toRad_def atan2_def js_rem_def js_trunc_def mult.commute)

lemma station_valid: "\<not> \<bar>MY_LAT\<bar> > 90" "\<not> \<bar>MY_LON\<bar> > 180"
  by (simp_all add: MY_LAT_def MY_LON_def)

lemma zero_le_max: "\<not> (0::real) > MAX_REASONABLE_DISTANCE"
  by (simp add: MAX_REASONABLE_DISTANCE_def)

text \<open>
  Claim C10. In every entry of the daily-aggregate map, \<open>dayCount + nightCount = totalCount\<close>:
  in the statistics \<^verbatim>\<open>processFile\<close> returns for any sequence of lines (hence after every
  record of the file), across the processing of any single line, across the merge of any
  date of a file's statistics into \<^verbatim>\<open>allStats\<close>, and in the statistics
  \<^verbatim>\<open>processDirectory\<close> returns for any directory tree; whatever the rounding errors of the
  distances are, a record with a NaN distance included.
\<close>

theorem daily_counts_balanced:
  "stats_inv (stats (processFile err debugMode excludeMMSIs ls acc))
   \<and> (stats_inv (stats st) \<longrightarrow> stats_inv (stats (processLine err debugMode excludeMMSIs l st)))
   \<and> (stats_inv allStats \<and> balanced (snd entry) \<longrightarrow> stats_inv (mergeDate allStats entry))
   \<and> stats_inv (stats (processDirectory err debugMode excludeMMSIs entries acc))"
  using processFile_inv processLine_inv mergeDate_inv processDirectory_inv by blast

text \<open>Three records of one date received at hours 09, 14 and 22, and the merge of two
  aggregates of that date.\<close>

theorem daily_counts_balanced_witness:
  "stats (processFile exactly False {}
      [Parsed \<lparr>topic = ''ais/data'', timestamp = Some ''20240101093000'',
               payload = Some \<lparr>mmsi = 1, lat = Some MY_LAT, lon = Some MY_LON\<rparr>, raw = []\<rparr>,
       Parsed \<lparr>topic = ''ais/data'', timestamp = Some ''20240101140000'',
               payload = Some \<lparr>mmsi = 2, lat = Some MY_LAT, lon = Some MY_LON\<rparr>, raw = []\<rparr>,
       Parsed \<lparr>topic = ''ais/data'', timestamp = Some ''20240101220000'',
               payload = Some \<lparr>mmsi = 3, lat = Some MY_LAT, lon = Some MY_LON\<rparr>, raw = []\<rparr>]
      initialState)
    = [(''20240101'', \<lparr>dayCount = 2, nightCount = 1, totalCount = 3, maxDistance = 0,
                        maxDistanceMMSI = None\<rparr>)]
   \<and> stats_inv (stats (processFile exactly False {}
      [Parsed \<lparr>topic = ''ais/data'', timestamp = Some ''20240101093000'',
               payload = Some \<lparr>mmsi = 1, lat = Some MY_LAT, lon = Some MY_LON\<rparr>, raw = []\<rparr>,
       Parsed \<lparr>topic = ''ais/data'', timestamp = Some ''20240101140000'',
               payload = Some \<lparr>mmsi = 2, lat = Some MY_LAT, lon = Some MY_LON\<rparr>, raw = []\<rparr>,
       Parsed \<lparr>topic = ''ais/data'', timestamp = Some ''20240101220000'',
               payload = Some \<lparr>mmsi = 3, lat = Some MY_LAT, lon = Some MY_LON\<rparr>, raw = []\<rparr>]
      initialState))
   \<and> stats_inv (stats (initialState :: real option pstate))
   \<and> stats_inv (stats (processLine exactly False {}
         (Parsed \<lparr>topic = ''ais/data'', timestamp = Some ''20240101093000'',
               payload = Some \<lparr>mmsi = 1, lat = Some MY_LAT, lon = Some MY_LON\<rparr>, raw = []\<rparr>)
         initialState))
   \<and> stats_inv [(''20240101'', \<lparr>dayCount = 2, nightCount = 1, totalCount = 3, maxDistance = 0,
                        maxDistanceMMSI = None\<rparr>)]
   \<and> balanced \<lparr>dayCount = 1, nightCount = 4, totalCount = 5, maxDistance = 7,
                        maxDistanceMMSI = Some 9\<rparr>
   \<and> mergeDate [(''20240101'', \<lparr>dayCount = 2, nightCount = 1, totalCount = 3, maxDistance = 0,
                        maxDistanceMMSI = None\<rparr>)]
         (''20240101'', \<lparr>dayCount = 1, nightCount = 4, totalCount = 5, maxDistance = 7,
                        maxDistanceMMSI = Some 9\<rparr>)
       = [(''20240101'', \<lparr>dayCount = 3, nightCount = 5, totalCount = 8, maxDistance = 7,
                        maxDistanceMMSI = Some 9\<rparr>)]
   \<and> stats_inv (mergeDate [(''20240101'', \<lparr>dayCount = 2, nightCount = 1, totalCount = 3, maxDistance = 0,
                        maxDistanceMMSI = None\<rparr>)]
         (''20240101'', \<lparr>dayCount = 1, nightCount = 4, totalCount = 5, maxDistance = 7,
                        maxDistanceMMSI = Some 9\<rparr>))"
  using daily_counts_balanced [of exactly False "{}"
      "[Parsed \<lparr>topic = ''ais/data'', timestamp = Some ''20240101093000'',
               payload = Some \<lparr>mmsi = 1, lat = Some MY_LAT, lon = Some MY_LON\<rparr>, raw = []\<rparr>,
       Parsed \<lparr>topic = ''ais/data'', timestamp = Some ''20240101140000'',
               payload = Some \<lparr>mmsi = 2, lat = Some MY_LAT, lon = Some MY_LON\<rparr>, raw = []\<rparr>,
       Parsed \<lparr>topic = ''ais/data'', timestamp = Some ''20240101220000'',
               payload = Some \<lparr>mmsi = 3, lat = Some MY_LAT, lon = Some MY_LON\<rparr>, raw = []\<rparr>]"
      initialState initialState
      "Parsed \<lparr>topic = ''ais/data'', timestamp = Some ''20240101093000'',
               payload = Some \<lparr>mmsi = 1, lat = Some MY_LAT, lon = Some MY_LON\<rparr>, raw = []\<rparr>"
      "[(''20240101'', \<lparr>dayCount = 2, nightCount = 1, totalCount = 3, maxDistance = 0,
                        maxDistanceMMSI = None\<rparr>)]"
      "(''20240101'', \<lparr>dayCount = 1, nightCount = 4, totalCount = 5, maxDistance = 7,
                        maxDistanceMMSI = Some 9\<rparr>)" "[]"]
  by (simp add: processFile_def processLine_def addSample_def exactly_def initialState_def
      calculateDistance_same
      calculateBearing_same station_valid zero_le_max recordSample_def freshAggregate_def
      getDate_def getHour_def parseInt_def isWhiteSpace_def digitOf_def sectorOf_def
      countSector_def mergeDate_def stats_inv_def balanced_def Let_def)

section \<open>Distance and bearing\<close>

subsection \<open>In exact arithmetic the distance is a number\<close>

lemma toRad_bound:
  assumes "\<bar>deg\<bar> \<le> 90"
  shows "\<bar>toRad deg\<bar> \<le> pi / 2"
proof -
  have "\<bar>toRad deg\<bar> = \<bar>deg\<bar> * (pi / 180)"
    by (simp add: toRad_def abs_mult)
  also have "\<dots> \<le> 90 * (pi / 180)"
    using assms by (intro mult_right_mono) simp_all
  finally show ?thesis by simp
qed

lemma cos_toRad_nonneg: "\<bar>deg\<bar> \<le> 90 \<Longrightarrow> 0 \<le> cos (toRad deg)"
  using toRad_bound [of deg] by (intro cos_ge_zero) (simp_all add: abs_le_iff)

lemma sin_half_squared: "sin (x / 2) * sin (x / 2) = (1 - cos x) / (2::real)"
  using cos_double_sin [of "x / 2"] by (simp add: power2_eq_square)

text \<open>For latitudes within 90 degrees the haversine term lies in \<open>[0, 1]\<close>, so neither
  \<^verbatim>\<open>Math.sqrt(a)\<close> nor \<^verbatim>\<open>Math.sqrt(1 - a)\<close> is NaN.\<close>

lemma haversine_a_bounds:
  assumes "\<bar>lat1\<bar> \<le> 90" and "\<bar>lat2\<bar> \<le> 90"
  shows "0 \<le> haversine_a lat1 lon1 lat2 lon2" and "haversine_a lat1 lon1 lat2 lon2 \<le> 1"
proof -
  let ?p1 = "toRad lat1" and ?p2 = "toRad lat2"
  let ?dl = "toRad (lon2 - lon1)"
  have c1: "0 \<le> cos ?p1" and c2: "0 \<le> cos ?p2"
    using assms by (simp_all add: cos_toRad_nonneg)
  have cc: "0 \<le> cos ?p1 * cos ?p2" using c1 c2 by simp
  have d: "toRad (lat2 - lat1) = ?p2 - ?p1" by (simp add: toRad_def left_diff_distrib)
  have a_eq: "haversine_a lat1 lon1 lat2 lon2 =
      (1 - cos (?p2 - ?p1)) / 2 + (cos ?p1 * cos ?p2) * ((1 - cos ?dl) / 2)"
    unfolding haversine_a_def Let_def d
    by (simp add: sin_half_squared mult.assoc)
  have h0: "0 \<le> (1 - cos ?dl) / 2" and h1: "(1 - cos ?dl) / 2 \<le> 1"
    using cos_le_one [of ?dl] cos_ge_minus_one [of ?dl] by simp_all
  have g0: "0 \<le> (1 - cos (?p2 - ?p1)) / 2"
    using cos_le_one [of "?p2 - ?p1"] by simp
  show "0 \<le> haversine_a lat1 lon1 lat2 lon2"
    unfolding a_eq using g0 mult_nonneg_nonneg [OF cc h0] by linarith
  have "(cos ?p1 * cos ?p2) * ((1 - cos ?dl) / 2) \<le> (cos ?p1 * cos ?p2) * 1"
    using cc h1 by (intro mult_left_mono)
  then have "haversine_a lat1 lon1 lat2 lon2 \<le> (1 - cos (?p2 - ?p1)) / 2 + cos ?p1 * cos ?p2"
    unfolding a_eq by simp
  also have "\<dots> = (1 + cos (?p2 + ?p1)) / 2"
    by (simp add: cos_diff cos_add field_simps)
  also have "\<dots> \<le> 1"
    using cos_le_one [of "?p2 + ?p1"] by simp
  finally show "haversine_a lat1 lon1 lat2 lon2 \<le> 1" .
qed

lemma atan2_nonneg:
  assumes y: "0 \<le> y"
  shows "0 \<le> atan2 y x"
proof -
  consider "0 < x" | "x < 0" | "x = 0" by linarith
  then show ?thesis
  proof cases
    case 1
    then show ?thesis using y by (simp add: atan2_def)
  next
    case 2
    have "- (pi / 2) < arctan (y / x)" by (rule arctan_lbound)
    moreover have "0 < pi / 2" using pi_gt_zero by simp
    ultimately have "0 \<le> arctan (y / x) + pi" by linarith
    then show ?thesis using 2 y by (simp add: atan2_def)
  next
    case 3
    then show ?thesis using y by (simp add: atan2_def)
  qed
qed

lemma atan2_range: "- pi < atan2 y x \<and> atan2 y x \<le> pi"
proof -
  have l: "- (pi / 2) < arctan (y / x)" by (rule arctan_lbound)
  have u: "arctan (y / x) < pi / 2" by (rule arctan_ubound)
  have neg: "x < 0 \<Longrightarrow> y < 0 \<Longrightarrow> 0 < arctan (y / x)"
    by (simp add: zero_less_arctan_iff zero_less_divide_iff)
  have pos: "x < 0 \<Longrightarrow> 0 \<le> y \<Longrightarrow> arctan (y / x) \<le> 0"
    by (simp add: arctan_le_zero_iff divide_le_0_iff)
  show ?thesis
    using l u neg pos pi_gt_zero unfolding atan2_def
    by (auto simp: not_less)
qed

text \<open>Without rounding error the distance of two points with latitudes within 90 degrees
  is a number: a NaN distance comes from rounding alone.\<close>

lemma calculateDistance_total:
  assumes "\<bar>lat1\<bar> \<le> 90" and "\<bar>lat2\<bar> \<le> 90"
  shows "\<exists>d. calculateDistance 0 lat1 lon1 lat2 lon2 = Some d \<and> 0 \<le> d"
proof -
  let ?a = "haversine_a lat1 lon1 lat2 lon2"
  have b: "0 \<le> ?a" "?a \<le> 1" using haversine_a_bounds [OF assms, of lon1 lon2] by simp_all
  have "0 \<le> atan2 (sqrt ?a) (sqrt (1 - ?a))"
    using b by (intro atan2_nonneg) simp
  then have nn: "0 \<le> 6371 * (2 * atan2 (sqrt ?a) (sqrt (1 - ?a))) / 1.852" by simp
  have "calculateDistance 0 lat1 lon1 lat2 lon2
          = Some (6371 * (2 * atan2 (sqrt ?a) (sqrt (1 - ?a))) / 1.852)"
    using b by (simp add: calculateDistance_def js_sqrt_def Let_def not_less)
  with nn show ?thesis by blast
qed

lemma js_rem_360:
  assumes "180 < z" and "z \<le> 540"
  shows "0 \<le> js_rem z 360 \<and> js_rem z 360 < 360"
proof (cases "z < 360")
  case True
  then have "\<lfloor>z / 360\<rfloor> = 0" using assms by (intro floor_unique) simp_all
  then show ?thesis using assms True by (simp add: js_rem_def js_trunc_def)
next
  case False
  then have "\<lfloor>z / 360\<rfloor> = 1" using assms by (intro floor_unique) simp_all
  then show ?thesis using assms False by (simp add: js_rem_def js_trunc_def)
qed

lemma calculateBearing_range:
  "0 \<le> calculateBearing lat1 lon1 lat2 lon2 \<and> calculateBearing lat1 lon1 lat2 lon2 < 360"
proof -
  define t where "t = atan2 (sin (toRad (lon2 - lon1)) * cos (toRad lat2))
      (cos (toRad lat1) * sin (toRad lat2)
        - sin (toRad lat1) * cos (toRad lat2) * cos (toRad (lon2 - lon1)))"
  have r: "- pi < t" "t \<le> pi" using atan2_range unfolding t_def by blast+
  have "- 180 < t * 180 / pi"
    using r(1) pi_gt_zero by (simp add: field_simps)
  moreover have "t * 180 / pi \<le> 180"
    using r(2) pi_gt_zero by (simp add: field_simps)
  ultimately have "180 < t * 180 / pi + 360" "t * 180 / pi + 360 \<le> 540" by simp_all
  then show ?thesis
    unfolding calculateBearing_def Let_def t_def [symmetric] by (rule js_rem_360)
qed

subsection \<open>Next to the antipode of the station\<close>

lemma near_antipode_valid: "\<not> \<bar>NEAR_LAT\<bar> > 90" "\<not> \<bar>NEAR_LON\<bar> > 180"
  by (simp_all add: NEAR_LAT_def NEAR_LON_def)

lemma near_antipode_term:
  "haversine_a MY_LAT MY_LON NEAR_LAT NEAR_LON + doubleError NEAR_LAT NEAR_LON = 1 + 1 / 2 ^ 52"
  by (simp add: doubleError_def)

lemma near_antipode_distance:
  "calculateDistance (doubleError NEAR_LAT NEAR_LON) MY_LAT MY_LON NEAR_LAT NEAR_LON = None"
  unfolding calculateDistance_def near_antipode_term
  by (simp add: js_sqrt_def)

text \<open>
  Claim C9. The claim is that \<^verbatim>\<open>calculateDistance\<close> and \<^verbatim>\<open>calculateBearing\<close> are pure and total
  on valid coordinates, and that at the station itself the distance is \<open>0\<close> and the bearing
  \<open>0\<close>, neither a failure nor NaN. At the station both values are \<open>0\<close> (lemmas
  \<open>calculateDistance_same\<close> and \<open>calculateBearing_same\<close>). Evaluated at the valid point
  \<open>(-51.500929982096466, 179.79328878657643)\<close>, where the doubles give the haversine term
  \<open>1 + 1 / 2 ^ 52\<close>, the distance from the station is NaN; the record then passes the test
  against 100 nautical miles and is added to the accumulators with a NaN distance.
\<close>

theorem calculateDistance_near_antipode:
  "\<bar>NEAR_LAT\<bar> \<le> 90 \<and> \<bar>NEAR_LON\<bar> \<le> 180
   \<and> calculateDistance (doubleError NEAR_LAT NEAR_LON) MY_LAT MY_LON NEAR_LAT NEAR_LON = None
   \<and> allDistances (processLine doubleError False {}
        (Parsed \<lparr>topic = ''ais/data'', timestamp = Some ''20240101093000'',
                 payload = Some \<lparr>mmsi = 1, lat = Some NEAR_LAT, lon = Some NEAR_LON\<rparr>,
                 raw = []\<rparr>)
        initialState) = [None]
   \<and> stats (processLine doubleError False {}
        (Parsed \<lparr>topic = ''ais/data'', timestamp = Some ''20240101093000'',
                 payload = Some \<lparr>mmsi = 1, lat = Some NEAR_LAT, lon = Some NEAR_LON\<rparr>,
                 raw = []\<rparr>)
        initialState)
       = [(''20240101'', \<lparr>dayCount = 1, nightCount = 0, totalCount = 1, maxDistance = 0,
                           maxDistanceMMSI = None\<rparr>)]"
proof -
  have valid: "\<bar>NEAR_LAT\<bar> \<le> 90 \<and> \<bar>NEAR_LON\<bar> \<le> 180"
    by (simp add: NEAR_LAT_def NEAR_LON_def)
  show ?thesis
    using valid
    by (simp add: processLine_def addSample_def initialState_def near_antipode_distance
        near_antipode_valid recordSample_def freshAggregate_def getDate_def getHour_def
        parseInt_def isWhiteSpace_def digitOf_def Let_def)
qed

section \<open>The top 5% by distance\<close>

lemma combined_zip:
  assumes "length distances = length bearings"
  shows "combined bearings distances = zip bearings distances"
proof (rule nth_equalityI)
  show "length (combined bearings distances) = length (zip bearings distances)"
    using assms by (simp add: combined_def)
  fix i
  assume "i < length (combined bearings distances)"
  then show "combined bearings distances ! i = zip bearings distances ! i"
    using assms by (simp add: combined_def)
qed


lemma top5PercentCount_div: "top5PercentCount n = max 1 (n div 20)"
proof -
  have "real n * 0.05 = real n / real 20" by simp
  then have "\<lfloor>real n * 0.05\<rfloor> = int (n div 20)"
    by (simp only: floor_divide_of_nat_eq)
  then show ?thesis by (simp add: top5PercentCount_def)
qed


lemma top5PercentCount_le: "0 < n \<Longrightarrow> top5PercentCount n \<le> n"
  by (simp add: top5PercentCount_div)


lemma length_sortedByDistance: "length (sortedByDistance bearings distances) = length bearings"
  by (simp add: sortedByDistance_def combined_def)


lemma length_top5Percent:
  "bearings \<noteq> [] \<Longrightarrow> length (top5Percent bearings distances) = max 1 (length bearings div 20)"
  using top5PercentCount_le [of "length bearings"]
  by (simp add: top5Percent_def length_sortedByDistance top5PercentCount_div)


lemma mset_sortedByDistance:
  "length distances = length bearings \<Longrightarrow>
     mset (sortedByDistance bearings distances) = mset (zip bearings distances)"
  by (simp add: sortedByDistance_def combined_zip)


lemma mset_take_drop: "mset xs = mset (take k xs) + mset (drop k xs)"
  by (metis append_take_drop_id mset_append)


lemma rest_of_top5Percent:
  assumes "length distances = length bearings"
  shows "mset (zip bearings distances) - mset (top5Percent bearings distances)
           = mset (drop (top5PercentCount (length bearings)) (sortedByDistance bearings distances))"
  unfolding top5Percent_def mset_sortedByDistance [OF assms, symmetric]
  using mset_take_drop [of "sortedByDistance bearings distances" "top5PercentCount (length bearings)"]
  by simp


lemma top5Percent_sub:
  assumes "length distances = length bearings"
  shows "mset (top5Percent bearings distances) \<subseteq># mset (zip bearings distances)"
  unfolding top5Percent_def mset_sortedByDistance [OF assms, symmetric]
  using mset_take_drop [of "sortedByDistance bearings distances" "top5PercentCount (length bearings)"]
  by simp


lemma sorted_take_drop:
  assumes "sorted (map f xs)" and "x \<in> set (take k xs)" and "y \<in> set (drop k xs)"
  shows "f x \<le> f y"
proof -
  have "sorted (map f (take k xs) @ map f (drop k xs))"
    using assms(1) by (simp flip: map_append)
  then show ?thesis
    using assms(2,3) by (auto simp: sorted_append)
qed


lemma top5Percent_farthest:
  assumes "p \<in> set (top5Percent bearings distances)"
    and "q \<in> set (drop (top5PercentCount (length bearings)) (sortedByDistance bearings distances))"
  shows "snd q \<le> snd p"
proof -
  have "sorted (map (\<lambda>item. - snd item) (sortedByDistance bearings distances))"
    by (simp add: sortedByDistance_def)
  from sorted_take_drop [OF this assms(1) [unfolded top5Percent_def] assms(2)]
  show ?thesis by simp
qed


lemma fold_add_snd: "fold (\<lambda>item acc. acc + snd item) xs (a::real) = a + sum_list (map snd xs)"
  by (induction xs arbitrary: a) simp_all

text \<open>
  Claim C3, as amended. For bearing and distance arrays of the same length \<open>N > 0\<close>, the
  top-5%-by-distance analysis takes exactly \<open>max(1, \<lfloor>0.05 N\<rfloor>)\<close> of the (bearing, distance)
  pairs, none of the pairs left out is farther than a pair taken, and the count, the
  average distance, the bearing spread and the sorted bearing list of the result are
  those of exactly that subset.
\<close>

theorem top5Percent_analysis:
  assumes len: "length distances = length bearings" and ne: "bearings \<noteq> []"
  shows "\<exists>r. calculateBeamWidth bearings distances = Some r
     \<and> md_count (beam_maxDistance r) = max 1 (length bearings div 20)
     \<and> length (top5Percent bearings distances) = md_count (beam_maxDistance r)
     \<and> mset (top5Percent bearings distances) \<subseteq># mset (zip bearings distances)
     \<and> (\<forall>p \<in> set (top5Percent bearings distances).
          \<forall>q \<in># mset (zip bearings distances) - mset (top5Percent bearings distances).
            snd q \<le> snd p)
     \<and> md_avgDistance (beam_maxDistance r)
          = sum_list (map snd (top5Percent bearings distances)) / real (md_count (beam_maxDistance r))
     \<and> md_bearings (beam_maxDistance r) = sort (map fst (top5Percent bearings distances))
     \<and> md_spread (beam_maxDistance r)
          = Max (set (map fst (top5Percent bearings distances)))
            - Min (set (map fst (top5Percent bearings distances)))"
proof -
  have far: "\<forall>p \<in> set (top5Percent bearings distances).
          \<forall>q \<in># mset (zip bearings distances) - mset (top5Percent bearings distances).
            snd q \<le> snd p"
    unfolding rest_of_top5Percent [OF len] using top5Percent_farthest by auto
  show ?thesis
    using ne far top5Percent_sub [OF len] length_top5Percent [OF ne, of distances]
    by (simp add: calculateBeamWidth_def Let_def top5PercentCount_div fold_add_snd)
qed

theorem top5Percent_analysis_witness:
  "length [3, 1, 2 :: real] = length [10, 20, 30 :: real] \<and> [10, 20, 30 :: real] \<noteq> []
   \<and> (\<exists>r. calculateBeamWidth [10, 20, 30] [3, 1, 2] = Some r
     \<and> md_count (beam_maxDistance r) = 1
     \<and> top5Percent [10, 20, 30] [3, 1, 2] = [(10, 3)]
     \<and> md_avgDistance (beam_maxDistance r) = 3
     \<and> md_bearings (beam_maxDistance r) = [10]
     \<and> md_spread (beam_maxDistance r) = 0)"
proof -
  have h1: "length [3, 1, 2 :: real] = length [10, 20, 30 :: real]" by simp
  have h2: "[10, 20, 30 :: real] \<noteq> []" by simp
  have t: "top5Percent [10, 20, 30] [3, 1, 2] = [(10, 3)]"
    by (simp add: top5Percent_def top5PercentCount_def sortedByDistance_def combined_def
        upt_rec [of _ 3] numeral_eq_Suc)
  from top5Percent_analysis [OF h1 h2] obtain r where
    r: "calculateBeamWidth [10, 20, 30] [3, 1, 2] = Some r"
      "md_count (beam_maxDistance r) = max 1 (length [10, 20, 30 :: real] div 20)"
      "md_avgDistance (beam_maxDistance r)
         = sum_list (map snd (top5Percent [10, 20, 30] [3, 1, 2])) / real (md_count (beam_maxDistance r))"
      "md_bearings (beam_maxDistance r) = sort (map fst (top5Percent [10, 20, 30] [3, 1, 2]))"
      "md_spread (beam_maxDistance r)
          = Max (set (map fst (top5Percent [10, 20, 30] [3, 1, 2])))
            - Min (set (map fst (top5Percent [10, 20, 30] [3, 1, 2])))"
    by blast
  have "md_count (beam_maxDistance r) = 1" using r(2) by simp
  moreover have "md_avgDistance (beam_maxDistance r) = 3" using r(3) r(2) by (simp add: t)
  moreover have "md_bearings (beam_maxDistance r) = [10]" using r(4) by (simp add: t)
  moreover have "md_spread (beam_maxDistance r) = 0" using r(5) by (simp add: t)
  ultimately show ?thesis using r(1) t by simp
qed

text \<open>The claim as stated has \<open>max(1, \<lceil>0.05 N\<rceil>)\<close> samples: for 21 samples that is 2,
  and the code takes 1.\<close>

theorem top5Percent_count_floor:
  "md_count (beam_maxDistance (the (calculateBeamWidth (replicate 21 90) (replicate 21 10)))) = 1
   \<and> length (top5Percent (replicate 21 90) (replicate 21 10)) = 1
   \<and> max 1 \<lceil>0.05 * real (length (replicate 21 (90::real)))\<rceil> = 2"
  by (simp add: calculateBeamWidth_def Let_def top5Percent_def top5PercentCount_def sortedByDistance_def combined_def)

section \<open>The wraparound search of the percentile window\<close>

subsection \<open>The loop keeps the first rotation of least span\<close>

lemma rotationStep_eq:
  "rotationStep sb s e offset best =
     (if windowSpan sb s e offset < fst best
      then (windowSpan sb s e offset, unrotated sb s e offset)
      else best)"
  by (simp add: rotationStep_def windowSpan_def unrotated_def Let_def)

lemma later_step: "offset < 360 \<Longrightarrow> later offset = insert offset (later (offset + 10))"
proof (rule set_eqI)
  fix x
  assume lt: "offset < 360"
  show "x \<in> later offset \<longleftrightarrow> x \<in> insert offset (later (offset + 10))"
  proof
    assume "x \<in> later offset"
    then have x: "offset \<le> x" "x < 360" "(x - offset) mod 10 = 0" by (simp_all add: later_def)
    show "x \<in> insert offset (later (offset + 10))"
    proof (cases "x = offset")
      case True then show ?thesis by simp
    next
      case False
      with x have "offset + 10 \<le> x" by presburger
      moreover have "(x - (offset + 10)) mod 10 = 0" using x False by presburger
      ultimately show ?thesis using x by (simp add: later_def)
    qed
  next
    assume "x \<in> insert offset (later (offset + 10))"
    then show "x \<in> later offset"
      using lt by (auto simp: later_def) presburger
  qed
qed

lemma later_done: "\<not> offset < 360 \<Longrightarrow> later offset = {}"
  by (auto simp: later_def)

lemma later_0: "later 0 = set rotationOffsets"
proof -
  have "later 0 = {o'. o' < 360 \<and> o' mod 10 = 0}" by (auto simp: later_def)
  also have "\<dots> = (\<lambda>k. 10 * k) ` {0..<36}"
  proof (rule set_eqI)
    fix x :: nat
    show "x \<in> {o'. o' < 360 \<and> o' mod 10 = 0} \<longleftrightarrow> x \<in> (\<lambda>k. 10 * k) ` {0..<36}"
    proof
      assume "x \<in> {o'. o' < 360 \<and> o' mod 10 = 0}"
      then have "x = 10 * (x div 10)" "x div 10 < 36" by auto
      then show "x \<in> (\<lambda>k. 10 * k) ` {0..<36}" by (metis atLeastLessThan_iff image_eqI zero_le)
    qed auto
  qed
  finally show ?thesis by (simp add: rotationOffsets_def)
qed

lemma rotationSearch_result:
  "(rotationSearch sb s e offset best = best
      \<and> (\<forall>o' \<in> later offset. fst best \<le> windowSpan sb s e o'))
   \<or> (\<exists>o1 \<in> later offset.
         rotationSearch sb s e offset best = (windowSpan sb s e o1, unrotated sb s e o1)
         \<and> windowSpan sb s e o1 < fst best
         \<and> (\<forall>o' \<in> later offset. windowSpan sb s e o1 \<le> windowSpan sb s e o'))"
proof (induction sb s e offset best rule: rotationSearch.induct)
  case (1 sb s e offset best)
  show ?case
  proof (cases "offset < 360")
    case False
    then show ?thesis
      by (simp add: rotationSearch.simps [of sb s e offset best] later_done)
  next
    case True
    let ?best1 = "rotationStep sb s e offset best"
    have unfold: "rotationSearch sb s e offset best = rotationSearch sb s e (offset + 10) ?best1"
      using True by (simp add: rotationSearch.simps [of sb s e offset best])
    note IH = "1.IH" [OF True]
    show ?thesis
    proof (cases "windowSpan sb s e offset < fst best")
      case improved: True
      then have b1: "?best1 = (windowSpan sb s e offset, unrotated sb s e offset)"
        by (simp add: rotationStep_eq)
      from IH show ?thesis
      proof
        assume "rotationSearch sb s e (offset + 10) ?best1 = ?best1
            \<and> (\<forall>o' \<in> later (offset + 10). fst ?best1 \<le> windowSpan sb s e o')"
        then have "rotationSearch sb s e offset best = (windowSpan sb s e offset, unrotated sb s e offset)"
          and "\<forall>o' \<in> later offset. windowSpan sb s e offset \<le> windowSpan sb s e o'"
          using unfold b1 by (auto simp: later_step [OF True])
        then show ?thesis using improved by (auto simp: later_step [OF True])
      next
        assume "\<exists>o1 \<in> later (offset + 10).
           rotationSearch sb s e (offset + 10) ?best1 = (windowSpan sb s e o1, unrotated sb s e o1)
           \<and> windowSpan sb s e o1 < fst ?best1
           \<and> (\<forall>o' \<in> later (offset + 10). windowSpan sb s e o1 \<le> windowSpan sb s e o')"
        then obtain o1 where o1: "o1 \<in> later (offset + 10)"
          "rotationSearch sb s e (offset + 10) ?best1 = (windowSpan sb s e o1, unrotated sb s e o1)"
          "windowSpan sb s e o1 < fst ?best1"
          "\<forall>o' \<in> later (offset + 10). windowSpan sb s e o1 \<le> windowSpan sb s e o'"
          by blast
        have "windowSpan sb s e o1 < windowSpan sb s e offset" using o1(3) b1 by simp
        then have "windowSpan sb s e o1 < fst best"
          and "\<forall>o' \<in> later offset. windowSpan sb s e o1 \<le> windowSpan sb s e o'"
          using improved o1(4) by (auto simp: later_step [OF True])
        then show ?thesis using o1(1,2) unfold by (auto simp: later_step [OF True])
      qed
    next
      case kept: False
      then have b1: "?best1 = best" by (simp add: rotationStep_eq)
      from IH show ?thesis
      proof
        assume "rotationSearch sb s e (offset + 10) ?best1 = ?best1
            \<and> (\<forall>o' \<in> later (offset + 10). fst ?best1 \<le> windowSpan sb s e o')"
        then show ?thesis using unfold b1 kept by (auto simp: later_step [OF True])
      next
        assume "\<exists>o1 \<in> later (offset + 10).
           rotationSearch sb s e (offset + 10) ?best1 = (windowSpan sb s e o1, unrotated sb s e o1)
           \<and> windowSpan sb s e o1 < fst ?best1
           \<and> (\<forall>o' \<in> later (offset + 10). windowSpan sb s e o1 \<le> windowSpan sb s e o')"
        then obtain o1 where o1: "o1 \<in> later (offset + 10)"
          "rotationSearch sb s e (offset + 10) ?best1 = (windowSpan sb s e o1, unrotated sb s e o1)"
          "windowSpan sb s e o1 < fst ?best1"
          "\<forall>o' \<in> later (offset + 10). windowSpan sb s e o1 \<le> windowSpan sb s e o'"
          by blast
        have "windowSpan sb s e o1 < fst best" using o1(3) b1 by simp
        moreover from this have "\<forall>o' \<in> later offset. windowSpan sb s e o1 \<le> windowSpan sb s e o'"
          using kept o1(4) by (auto simp: later_step [OF True])
        ultimately show ?thesis using o1(1,2) unfold by (auto simp: later_step [OF True])
      qed
    qed
  qed
qed

subsection \<open>Offset 0 is the window of the linear sort\<close>

lemma js_rem_id: "0 \<le> b \<Longrightarrow> b < 360 \<Longrightarrow> js_rem b 360 = b"
proof -
  assume a: "0 \<le> b" "b < 360"
  then have "\<lfloor>b / 360\<rfloor> = 0" by (intro floor_unique) simp_all
  then show ?thesis using a by (simp add: js_rem_def js_trunc_def)
qed

lemma js_rem_turn: "0 \<le> b \<Longrightarrow> b < 360 \<Longrightarrow> js_rem (b + 360) 360 = b"
proof -
  assume a: "0 \<le> b" "b < 360"
  then have "\<lfloor>(b + 360) / 360\<rfloor> = 1" by (intro floor_unique) simp_all
  then show ?thesis using a by (simp add: js_rem_def js_trunc_def)
qed

lemma adjusted_0:
  assumes "\<forall>b \<in> set sb. 0 \<le> b \<and> b < 360" and "sorted sb"
  shows "adjusted sb 0 = sb"
proof -
  have "map (\<lambda>b. js_rem (b + 0) 360) sb = sb"
    using assms(1) by (intro map_idI) (simp add: js_rem_id)
  then show ?thesis
    using assms(2) by (simp add: adjusted_def sorted_sort_id)
qed

lemma offset_0:
  assumes "\<forall>b \<in> set sb. 0 \<le> b \<and> b < 360" and "sorted sb"
    and "s < length sb" and "e < length sb"
  shows "windowSpan sb s e 0 = sb ! e - sb ! s" and "unrotated sb s e 0 = (sb ! s, sb ! e)"
proof -
  have r: "0 \<le> sb ! s \<and> sb ! s < 360" "0 \<le> sb ! e \<and> sb ! e < 360"
    using assms(1,3,4) by (simp_all add: all_set_conv_all_nth)
  show "windowSpan sb s e 0 = sb ! e - sb ! s"
    by (simp add: windowSpan_def adjusted_0 [OF assms(1,2)])
  show "unrotated sb s e 0 = (sb ! s, sb ! e)"
    using r by (simp add: unrotated_def adjusted_0 [OF assms(1,2)] js_rem_turn)
qed

lemma zero_in_offsets: "0 \<in> set rotationOffsets"
  by (simp add: rotationOffsets_def upt_rec [of 0 36])

lemma percentileWindow_wrapped:
  assumes rng: "\<forall>b \<in> set sb. 0 \<le> b \<and> b < 360" and srt: "sorted sb"
    and s: "s < length sb" and e: "e < length sb"
    and wide: "sb ! e - sb ! s > 180"
  shows "\<exists>offset \<in> set rotationOffsets.
     (\<forall>o' \<in> set rotationOffsets. windowSpan sb s e offset \<le> windowSpan sb s e o')
     \<and> (minBearing (percentileWindow sb s e p), maxBearing (percentileWindow sb s e p))
         = unrotated sb s e offset"
proof -
  let ?best0 = "(sb ! e - sb ! s, sb ! s, sb ! e)"
  have bounds: "(minBearing (percentileWindow sb s e p), maxBearing (percentileWindow sb s e p))
      = snd (rotationSearch sb s e 0 ?best0)"
    using wide by (simp add: percentileWindow_def Let_def)
  from rotationSearch_result [of sb s e 0 ?best0] show ?thesis
  proof
    assume "rotationSearch sb s e 0 ?best0 = ?best0
      \<and> (\<forall>o' \<in> later 0. fst ?best0 \<le> windowSpan sb s e o')"
    then have "snd (rotationSearch sb s e 0 ?best0) = unrotated sb s e 0"
      and "\<forall>o' \<in> set rotationOffsets. windowSpan sb s e 0 \<le> windowSpan sb s e o'"
      by (simp_all add: offset_0 [OF rng srt s e] later_0)
    then show ?thesis using bounds zero_in_offsets by metis
  next
    assume "\<exists>o1 \<in> later 0.
         rotationSearch sb s e 0 ?best0 = (windowSpan sb s e o1, unrotated sb s e o1)
         \<and> windowSpan sb s e o1 < fst ?best0
         \<and> (\<forall>o' \<in> later 0. windowSpan sb s e o1 \<le> windowSpan sb s e o')"
    then obtain o1 where "o1 \<in> set rotationOffsets"
      "snd (rotationSearch sb s e 0 ?best0) = unrotated sb s e o1"
      "\<forall>o' \<in> set rotationOffsets. windowSpan sb s e o1 \<le> windowSpan sb s e o'"
      by (auto simp: later_0)
    then show ?thesis using bounds by metis
  qed
qed

subsection \<open>Rounding to a double is monotone and keeps what is representable\<close>

lemma round_even_int: "round_even (of_int k) = k"
  by (simp add: round_even_def)

lemma round_even_mono:
  assumes "m \<le> m'"
  shows "round_even m \<le> round_even m'"
proof (cases "\<lfloor>m\<rfloor> = \<lfloor>m'\<rfloor>")
  case True
  then show ?thesis
    using assms by (auto simp: round_even_def Let_def)
next
  case False
  then have lt: "\<lfloor>m\<rfloor> < \<lfloor>m'\<rfloor>" using assms floor_mono [OF assms] by linarith
  have "round_even m \<le> \<lfloor>m\<rfloor> + 1" by (auto simp: round_even_def Let_def)
  moreover have "\<lfloor>m'\<rfloor> \<le> round_even m'" by (auto simp: round_even_def Let_def)
  ultimately show ?thesis using lt by linarith
qed


lemma round_even_ge: "of_int k \<le> m \<Longrightarrow> k \<le> round_even m"
  using round_even_mono [of "of_int k" m] by (simp add: round_even_int)

lemma round_even_le: "m \<le> of_int k \<Longrightarrow> round_even m \<le> k"
  using round_even_mono [of m "of_int k"] by (simp add: round_even_int)

lemma pow2_pos: "0 < pow2 e"
  by (simp add: pow2_def)

lemma pow2_add: "pow2 (a + b) = pow2 a * pow2 b"
  by (simp add: pow2_def powr_add)

lemma pow2_mono: "a \<le> b \<Longrightarrow> pow2 a \<le> pow2 b"
  by (simp add: pow2_def)

lemma pow2_nat: "pow2 (int n) = 2 ^ n"
  by (simp add: pow2_def powr_realpow)

lemma pow2_neg: "pow2 (- int n) = 1 / 2 ^ n"
  by (simp add: pow2_def powr_minus powr_realpow divide_inverse)

lemma toDouble_pow2:
  "x \<noteq> 0 \<Longrightarrow>
     toDouble x = of_int (round_even (x / pow2 (double_exponent x - 52))) * pow2 (double_exponent x - 52)"
  by (simp add: toDouble_def pow2_def Let_def)

lemma exponent_upper:
  assumes "x \<noteq> 0"
  shows "\<bar>x\<bar> < pow2 (double_exponent x + 1)"
proof -
  let ?k = "\<lfloor>log 2 \<bar>x\<bar>\<rfloor>"
  have "\<bar>x\<bar> < pow2 (?k + 1)"
    using floor_log_eq_powr_iff [of "\<bar>x\<bar>" 2 ?k] assms by (simp add: pow2_def)
  also have "\<dots> \<le> pow2 (double_exponent x + 1)"
    by (intro pow2_mono) (simp add: double_exponent_def)
  finally show ?thesis .
qed

lemma exponent_lower:
  assumes "x \<noteq> 0" and "- 1022 < double_exponent x"
  shows "pow2 (double_exponent x) \<le> \<bar>x\<bar>"
proof -
  let ?k = "\<lfloor>log 2 \<bar>x\<bar>\<rfloor>"
  have "double_exponent x = ?k" using assms(2) by (simp add: double_exponent_def max_def split: if_splits)
  moreover have "pow2 ?k \<le> \<bar>x\<bar>"
    using floor_log_eq_powr_iff [of "\<bar>x\<bar>" 2 ?k] assms(1) by (simp add: pow2_def)
  ultimately show ?thesis by simp
qed

lemma exponent_mono:
  assumes "0 < x" and "x \<le> y"
  shows "double_exponent x \<le> double_exponent y"
proof -
  have "log 2 \<bar>x\<bar> \<le> log 2 \<bar>y\<bar>" using assms by (simp add: log_mono)
  then have "\<lfloor>log 2 \<bar>x\<bar>\<rfloor> \<le> \<lfloor>log 2 \<bar>y\<bar>\<rfloor>" by (rule floor_mono)
  then show ?thesis by (simp add: double_exponent_def)
qed

lemma toDouble_nonneg:
  assumes "0 \<le> x"
  shows "0 \<le> toDouble x"
proof (cases "x = 0")
  case True
  then show ?thesis by (simp add: toDouble_def)
next
  case False
  let ?u = "pow2 (double_exponent x - 52)"
  have "of_int 0 \<le> x / ?u" using assms pow2_pos [of "double_exponent x - 52"] by simp
  then have "0 \<le> round_even (x / ?u)" by (rule round_even_ge)
  then show ?thesis
    using pow2_pos [of "double_exponent x - 52"] by (simp add: toDouble_pow2 [OF False])
qed

lemma toDouble_upper:
  assumes "0 < x"
  shows "toDouble x \<le> pow2 (double_exponent x + 1)"
proof -
  let ?e = "double_exponent x"
  let ?u = "pow2 (?e - 52)"
  have u: "0 < ?u" by (rule pow2_pos)
  have split: "pow2 (?e + 1) = pow2 53 * ?u"
    using pow2_add [of 53 "?e - 52"] by (simp add: algebra_simps)
  have "x < pow2 53 * ?u" using exponent_upper [of x] assms by (simp add: split)
  then have "x / ?u \<le> pow2 53" using u by (simp add: pos_divide_le_eq less_imp_le)
  also have "pow2 53 = of_int (2 ^ 53)" using pow2_nat [of 53] by simp
  finally have "round_even (x / ?u) \<le> 2 ^ 53" by (rule round_even_le)
  then have "of_int (round_even (x / ?u)) \<le> (of_int (2 ^ 53) :: real)" by (simp only: of_int_le_iff)
  then have "of_int (round_even (x / ?u)) * ?u \<le> of_int (2 ^ 53) * ?u"
    using u by (intro mult_right_mono) simp_all
  also have "\<dots> = pow2 (?e + 1)" using pow2_nat [of 53] by (simp add: split)
  finally show ?thesis using assms by (simp add: toDouble_pow2)
qed

lemma toDouble_lower:
  assumes "0 < x" and "- 1022 < double_exponent x"
  shows "pow2 (double_exponent x) \<le> toDouble x"
proof -
  let ?e = "double_exponent x"
  let ?u = "pow2 (?e - 52)"
  have u: "0 < ?u" by (rule pow2_pos)
  have split: "pow2 ?e = pow2 52 * ?u"
    using pow2_add [of 52 "?e - 52"] by simp
  have "pow2 52 * ?u \<le> x" using exponent_lower [of x] assms by (simp add: split)
  then have "pow2 52 \<le> x / ?u" using u by (simp add: pos_le_divide_eq)
  moreover have "pow2 52 = of_int (2 ^ 52)" using pow2_nat [of 52] by simp
  ultimately have "of_int (2 ^ 52) \<le> x / ?u" by simp
  then have "2 ^ 52 \<le> round_even (x / ?u)" by (rule round_even_ge)
  then have "(of_int (2 ^ 52) :: real) \<le> of_int (round_even (x / ?u))" by (simp only: of_int_le_iff)
  then have "of_int (2 ^ 52) * ?u \<le> of_int (round_even (x / ?u)) * ?u"
    using u by (intro mult_right_mono) simp_all
  moreover have "of_int (2 ^ 52) * ?u = pow2 ?e" using pow2_nat [of 52] by (simp add: split)
  ultimately show ?thesis using assms by (simp add: toDouble_pow2)
qed

lemma toDouble_mono:
  assumes "0 \<le> x" and "x \<le> y"
  shows "toDouble x \<le> toDouble y"
proof (cases "x = 0")
  case True
  then show ?thesis using toDouble_nonneg [of y] assms by (simp add: toDouble_def)
next
  case False
  then have x: "0 < x" and y: "0 < y" using assms by simp_all
  have le: "double_exponent x \<le> double_exponent y" by (rule exponent_mono [OF x assms(2)])
  show ?thesis
  proof (cases "double_exponent x = double_exponent y")
    case True
    let ?u = "pow2 (double_exponent y - 52)"
    have u: "0 < ?u" by (rule pow2_pos)
    have "x / ?u \<le> y / ?u" using assms(2) u by (simp add: divide_right_mono)
    then have "round_even (x / ?u) \<le> round_even (y / ?u)" by (rule round_even_mono)
    then have "(of_int (round_even (x / ?u)) :: real) \<le> of_int (round_even (y / ?u))"
      by (simp only: of_int_le_iff)
    then have "of_int (round_even (x / ?u)) * ?u \<le> of_int (round_even (y / ?u)) * ?u"
      using u by (intro mult_right_mono) simp_all
    then show ?thesis using x y True by (simp add: toDouble_pow2)
  next
    case False
    then have lt: "double_exponent x + 1 \<le> double_exponent y" using le by simp
    have "- 1022 \<le> double_exponent x" by (simp add: double_exponent_def)
    then have normal: "- 1022 < double_exponent y" using lt by simp
    have "toDouble x \<le> pow2 (double_exponent x + 1)" by (rule toDouble_upper [OF x])
    also have "\<dots> \<le> pow2 (double_exponent y)" by (rule pow2_mono [OF lt])
    also have "\<dots> \<le> toDouble y" by (rule toDouble_lower [OF y normal])
    finally show ?thesis .
  qed
qed

lemma toDouble_exact:
  assumes x: "x = of_int k * pow2 j" and k: "\<bar>k\<bar> < 2 ^ 53" and j: "- 1074 \<le> j"
  shows "toDouble x = x"
proof (cases "x = 0")
  case True
  then show ?thesis by (simp add: toDouble_def)
next
  case False
  let ?e = "double_exponent x"
  have le: "?e - 52 \<le> j"
  proof (rule ccontr)
    assume "\<not> ?e - 52 \<le> j"
    then have big: "j + 53 \<le> ?e" by simp
    then have "- 1022 < ?e" using j by simp
    then have "pow2 ?e \<le> \<bar>x\<bar>" by (rule exponent_lower [OF False])
    moreover have "\<bar>x\<bar> < pow2 (j + 53)"
    proof -
      have "\<bar>x\<bar> = of_int \<bar>k\<bar> * pow2 j"
        using pow2_pos [of j] by (simp add: x abs_mult)
      also have "\<dots> < of_int (2 ^ 53) * pow2 j"
        using k pow2_pos [of j] by (intro mult_strict_right_mono) (simp_all only: of_int_less_iff)
      also have "\<dots> = pow2 (j + 53)"
        using pow2_add [of j 53] pow2_nat [of 53] by simp
      finally show ?thesis .
    qed
    moreover have "pow2 (j + 53) \<le> pow2 ?e" by (rule pow2_mono [OF big])
    ultimately show False by simp
  qed
  define d where "d = nat (j - (?e - 52))"
  have jd: "j = int d + (?e - 52)" using le by (simp add: d_def)
  have "pow2 j = 2 ^ d * pow2 (?e - 52)"
    using pow2_add [of "int d" "?e - 52"] pow2_nat [of d] jd by simp
  then have xu: "x = of_int (k * 2 ^ d) * pow2 (?e - 52)" by (simp add: x)
  have "x / pow2 (?e - 52) = of_int (k * 2 ^ d)"
    using pow2_pos [of "?e - 52"] by (subst xu) simp
  then have "round_even (x / pow2 (?e - 52)) = k * 2 ^ d"
    by (simp only: round_even_int)
  then show ?thesis
    using False xu by (simp add: toDouble_pow2)
qed

lemma toDouble_of_nat: "n < 2 ^ 53 \<Longrightarrow> toDouble (real n) = real n"
  using toDouble_exact [of "real n" "int n" 0] by (simp add: pow2_def)

lemma toDouble_half_nat: "n < 2 ^ 53 \<Longrightarrow> toDouble (real n / 2) = real n / 2"
  using toDouble_exact [of "real n / 2" "int n" "- 1"] pow2_neg [of 1] by simp

lemma toDouble_consts: "toDouble 1 = 1" "toDouble 2 = 2" "toDouble (1 / 2) = 1 / 2"
  using toDouble_of_nat [of 1] toDouble_of_nat [of 2] toDouble_half_nat [of 1] by simp_all

lemma toDouble_at:
  assumes "0 < x" and "pow2 e \<le> x" and "x < pow2 (e + 1)" and "- 1022 \<le> e"
  shows "toDouble x = of_int (round_even (x / pow2 (e - 52))) * pow2 (e - 52)"
proof -
  have "\<lfloor>log 2 \<bar>x\<bar>\<rfloor> = e"
    using floor_log_eq_powr_iff [of "\<bar>x\<bar>" 2 e] assms by (simp add: pow2_def)
  then have "double_exponent x = e" using assms(4) by (simp add: double_exponent_def)
  then show ?thesis using assms(1) by (simp add: toDouble_pow2)
qed

lemma pow2_numeral:
  "pow2 (numeral n) = 2 ^ numeral n" "pow2 (- numeral n) = 1 / 2 ^ numeral n"
proof -
  show "pow2 (numeral n) = 2 ^ numeral n"
    using pow2_nat [of "numeral n"] by simp
  show "pow2 (- numeral n) = 1 / 2 ^ numeral n"
    using pow2_neg [of "numeral n"] by simp
qed

lemma pow2_small: "pow2 0 = 1" "pow2 1 = 2" "pow2 (- 1) = 1 / 2"
  using pow2_nat [of 0] pow2_nat [of 1] pow2_neg [of 1] by simp_all

text \<open>The window indices lie inside the array.\<close>

lemma index_in_range:
  assumes "0 < p" and "p < 1" and "0 < n" and "n < 2 ^ 53"
  shows "startIndex p n < n" and "endIndex p n < n"
proof -
  let ?p = "toDouble p"
  have p0: "0 \<le> ?p" using assms(1) by (intro toDouble_nonneg) simp
  have p1: "?p \<le> 1" using toDouble_mono [of p 1] assms(1,2) by (simp add: toDouble_consts)
  let ?a1 = "toDouble (1 - ?p)"
  have a1: "0 \<le> ?a1" "?a1 \<le> 1"
    using toDouble_nonneg [of "1 - ?p"] toDouble_mono [of "1 - ?p" 1] p0 p1
    by (simp_all add: toDouble_consts)
  let ?a2 = "toDouble (?a1 / 2)"
  have a2: "0 \<le> ?a2" "?a2 \<le> 1 / 2"
    using toDouble_nonneg [of "?a1 / 2"] toDouble_mono [of "?a1 / 2" "1 / 2"] a1
    by (simp_all add: toDouble_consts)
  have "?a2 * real n \<le> 1 / 2 * real n"
    using a2(2) by (intro mult_right_mono) simp_all
  then have "toDouble (?a2 * real n) \<le> toDouble (real n / 2)"
    using a2(1) by (intro toDouble_mono) simp_all
  then have "toDouble (?a2 * real n) \<le> real n / 2"
    by (simp add: toDouble_half_nat [OF assms(4)])
  then have "toDouble (?a2 * real n) < real n" using assms(3) by simp
  then have "\<lfloor>toDouble (?a2 * real n)\<rfloor> < int n" by linarith
  then show "startIndex p n < n" using assms(3) unfolding startIndex_def by linarith
  let ?b1 = "toDouble (1 + ?p)"
  have b1: "0 \<le> ?b1" "?b1 \<le> 2"
    using toDouble_nonneg [of "1 + ?p"] toDouble_mono [of "1 + ?p" 2] p0 p1
    by (simp_all add: toDouble_consts)
  let ?b2 = "toDouble (?b1 / 2)"
  have b2: "0 \<le> ?b2" "?b2 \<le> 1"
    using toDouble_nonneg [of "?b1 / 2"] toDouble_mono [of "?b1 / 2" 1] b1
    by (simp_all add: toDouble_consts)
  have "?b2 * real n \<le> 1 * real n"
    using b2(2) by (intro mult_right_mono) simp_all
  then have "toDouble (?b2 * real n) \<le> toDouble (real n)"
    using b2(1) by (intro toDouble_mono) simp_all
  then have "toDouble (?b2 * real n) \<le> real n"
    by (simp add: toDouble_of_nat [OF assms(4)])
  then have "\<lceil>toDouble (?b2 * real n)\<rceil> \<le> int n" by (simp add: ceiling_le_iff)
  then show "endIndex p n < n" using assms(3) unfolding endIndex_def by linarith
qed

subsection \<open>Bearings split between 355 and 5 degrees\<close>

lemma sort_two_blocks:
  "sort (replicate m x @ replicate n y) =
     (if x \<le> y then replicate m x @ replicate n y else replicate n y @ replicate m (x::real))"
proof (cases "x \<le> y")
  case True
  then have "sorted (replicate m x @ replicate n y)"
    by (auto simp: sorted_append)
  then show ?thesis using True by (simp add: sorted_sort_id)
next
  case False
  then have "sorted (replicate n y @ replicate m x)"
    by (auto simp: sorted_append)
  moreover have "mset (replicate n y @ replicate m x) = mset (replicate m x @ replicate n y)"
    by (simp add: union_commute)
  ultimately have "sort (replicate m x @ replicate n y) = replicate n y @ replicate m x"
    by (rule properties_for_sort [rotated])
  then show ?thesis using False by simp
qed

lemma adjusted_two_blocks:
  "adjusted (replicate m a @ replicate n b) offset =
     (if js_rem (a + offset) 360 \<le> js_rem (b + offset) 360
      then replicate m (js_rem (a + offset) 360) @ replicate n (js_rem (b + offset) 360)
      else replicate n (js_rem (b + offset) 360) @ replicate m (js_rem (a + offset) 360))"
  by (simp add: adjusted_def sort_two_blocks)

lemma two_blocks_window:
  assumes "s < 50" and "50 \<le> e" and "e < 100"
  shows "adjusted (replicate 50 a @ replicate 50 b) offset ! s
           = min (js_rem (a + offset) 360) (js_rem (b + offset) 360)"
    and "adjusted (replicate 50 a @ replicate 50 b) offset ! e
           = max (js_rem (a + offset) 360) (js_rem (b + offset) 360)"
  using assms by (simp_all add: adjusted_two_blocks nth_append)

lemma two_blocks_step:
  assumes "s < 50" and "50 \<le> e" and "e < 100"
  shows "rotationStep (replicate 50 a @ replicate 50 b) s e offset best =
     (if max (js_rem (a + real offset) 360) (js_rem (b + real offset) 360)
         - min (js_rem (a + real offset) 360) (js_rem (b + real offset) 360) < fst best
      then (max (js_rem (a + real offset) 360) (js_rem (b + real offset) 360)
              - min (js_rem (a + real offset) 360) (js_rem (b + real offset) 360),
            js_rem (min (js_rem (a + real offset) 360) (js_rem (b + real offset) 360)
                      - real offset + 360) 360,
            js_rem (max (js_rem (a + real offset) 360) (js_rem (b + real offset) 360)
                      - real offset + 360) 360)
      else best)"
  by (simp add: rotationStep_def two_blocks_window [OF assms] Let_def)

lemma split_search:
  assumes "s < 50" and "50 \<le> e" and "e < 100"
  shows "rotationSearch (replicate 50 5 @ replicate 50 355) s e 0 (350, 5, 355) = (10, 355, 5)"
  by (simp add: rotationSearch.simps two_blocks_step [OF assms] js_rem_def js_trunc_def)

lemma split_sorted: "sort (replicate 50 355 @ replicate 50 (5::real)) = replicate 50 5 @ replicate 50 355"
  by (simp add: sort_two_blocks)

lemma split_window:
  assumes "s < 50" and "50 \<le> e" and "e < 100"
  shows "percentileWindow (replicate 50 5 @ replicate 50 355) s e p =
     \<lparr>minBearing = 355, maxBearing = 5, beamWidth = 10, centerBearing = 0, percentile = p\<rparr>"
proof -
  have ends: "(replicate 50 5 @ replicate 50 (355::real)) ! s = 5"
    "(replicate 50 (5::real) @ replicate 50 355) ! e = 355"
    using assms by (simp_all add: nth_append)
  show ?thesis
    by (simp add: percentileWindow_def ends split_search [OF assms] Let_def js_rem_def js_trunc_def)
qed

text \<open>The window indices for \<open>p = 0.68\<close> and 100 bearings, rounding by rounding.\<close>

lemma toDouble_068: "toDouble 0.68 = 6124895493223875 / 2 ^ 53"
  using toDouble_at [of "0.68" "- 1"]
  by (simp add: pow2_numeral pow2_small round_even_def)

lemma toDouble_start_difference: "toDouble (1 - 6124895493223875 / 2 ^ 53) = 2882303761517117 / 2 ^ 53"
  using toDouble_at [of "1 - 6124895493223875 / 2 ^ 53" "- 2"]
  by (simp add: pow2_numeral pow2_small round_even_def)

lemma toDouble_start_half: "toDouble (2882303761517117 / 2 ^ 53 / 2) = 2882303761517117 / 2 ^ 54"
  using toDouble_at [of "2882303761517117 / 2 ^ 53 / 2" "- 3"]
  by (simp add: pow2_numeral pow2_small round_even_def)

lemma toDouble_start_product: "toDouble (2882303761517117 / 2 ^ 54 * real (100::nat)) = 9007199254740991 / 2 ^ 49"
  using toDouble_at [of "2882303761517117 / 2 ^ 54 * real (100::nat)" 3]
  by (simp add: pow2_numeral pow2_small round_even_def)

lemma toDouble_end_sum: "toDouble (1 + 6124895493223875 / 2 ^ 53) = 7566047373982434 / 2 ^ 52"
  using toDouble_at [of "1 + 6124895493223875 / 2 ^ 53" 0]
  by (simp add: pow2_numeral pow2_small round_even_def)

lemma toDouble_end_half: "toDouble (7566047373982434 / 2 ^ 52 / 2) = 7566047373982434 / 2 ^ 53"
  using toDouble_at [of "7566047373982434 / 2 ^ 52 / 2" "- 1"]
  by (simp add: pow2_numeral pow2_small round_even_def)

lemma toDouble_end_product: "toDouble (7566047373982434 / 2 ^ 53 * real (100::nat)) = 5910974510923777 / 2 ^ 46"
  using toDouble_at [of "7566047373982434 / 2 ^ 53 * real (100::nat)" 6]
  by (simp add: pow2_numeral pow2_small round_even_def)

lemma split_indices: "startIndex 0.68 100 = 15" "endIndex 0.68 100 = 84"
proof -
  show "startIndex 0.68 100 = 15"
    unfolding startIndex_def toDouble_068 toDouble_start_difference toDouble_start_half
      toDouble_start_product
    by simp
  show "endIndex 0.68 100 = 84"
    unfolding endIndex_def toDouble_068 toDouble_end_sum toDouble_end_half toDouble_end_product
    by simp
qed

lemma split_percentile:
  "findPercentileRange (replicate 50 5 @ replicate 50 355) 0.68 =
     \<lparr>minBearing = 355, maxBearing = 5, beamWidth = 10, centerBearing = 0, percentile = 0.68\<rparr>"
proof -
  have len: "length (replicate 50 (5::real) @ replicate 50 355) = 100" by simp
  have w: "percentileWindow (replicate 50 5 @ replicate 50 355) 15 84 0.68 =
     \<lparr>minBearing = 355, maxBearing = 5, beamWidth = 10, centerBearing = 0, percentile = 0.68\<rparr>"
    by (rule split_window) simp_all
  show ?thesis
    unfolding findPercentileRange_def len split_indices by (rule w)
qed

lemma percentile68_of_beam:
  "bearings \<noteq> [] \<Longrightarrow>
     map_option percentile68 (calculateBeamWidth bearings distances)
       = Some (findPercentileRange (sort bearings) 0.68)"
  by (simp add: calculateBeamWidth_def Let_def)

text \<open>
  Claim C6. For bearings in \<open>[0, 360)\<close> and any two window indices inside the sorted array
  (in particular those of \<open>p = 0.68, 0.95, 0.99\<close>, which lie inside it for every array
  shorter than \<open>2 ^ 53\<close>, as all arrays are): when the window of
  the linear sort spans more than 180 degrees, the bounds reported are those of the
  window at one of the offsets \<open>0, 10, ..., 350\<close> (every bearing moved by the offset modulo
  360, sorted again, read at the same two indices), rotated back by that offset, and no
  offset has a window of smaller span. For 100 bearings, 50 at 355 degrees and 50 at 5
  degrees, the beam width for \<open>p = 0.68\<close> is 10 degrees, for the window indices of the
  code (15 and 84) and for every other pair of indices on the two sides of the middle.
\<close>

theorem wraparound_search:
  "((\<forall>b \<in> set bearings. 0 \<le> b \<and> b < 360) \<and> s < length bearings \<and> e < length bearings
      \<and> 180 < sort bearings ! e - sort bearings ! s \<longrightarrow>
      (\<exists>offset \<in> set rotationOffsets.
         (\<forall>o' \<in> set rotationOffsets.
            windowSpan (sort bearings) s e offset \<le> windowSpan (sort bearings) s e o')
         \<and> (minBearing (percentileWindow (sort bearings) s e p),
             maxBearing (percentileWindow (sort bearings) s e p))
            = unrotated (sort bearings) s e offset))
   \<and> (0 < p \<and> p < 1 \<and> bearings \<noteq> [] \<and> length bearings < 2 ^ 53 \<longrightarrow>
        findPercentileRange (sort bearings) p
          = percentileWindow (sort bearings) (startIndex p (length bearings))
              (endIndex p (length bearings)) p
        \<and> startIndex p (length bearings) < length bearings
        \<and> endIndex p (length bearings) < length bearings)
   \<and> (s' < 50 \<and> 50 \<le> e' \<and> e' < 100 \<longrightarrow>
        beamWidth (percentileWindow (sort (replicate 50 355 @ replicate 50 5)) s' e' 0.68) = 10)
   \<and> beamWidth (findPercentileRange (sort (replicate 50 355 @ replicate 50 5)) 0.68) = 10
   \<and> map_option (\<lambda>r. beamWidth (percentile68 r))
        (calculateBeamWidth (replicate 50 355 @ replicate 50 5) distances) = Some 10"
proof -
  have general: "(\<forall>b \<in> set bearings. 0 \<le> b \<and> b < 360) \<and> s < length bearings \<and> e < length bearings
      \<and> 180 < sort bearings ! e - sort bearings ! s \<longrightarrow>
      (\<exists>offset \<in> set rotationOffsets.
         (\<forall>o' \<in> set rotationOffsets.
            windowSpan (sort bearings) s e offset \<le> windowSpan (sort bearings) s e o')
         \<and> (minBearing (percentileWindow (sort bearings) s e p),
             maxBearing (percentileWindow (sort bearings) s e p))
            = unrotated (sort bearings) s e offset)"
    using percentileWindow_wrapped [of "sort bearings" s e p] by simp
  have indices: "0 < p \<and> p < 1 \<and> bearings \<noteq> [] \<and> length bearings < 2 ^ 53 \<longrightarrow>
        findPercentileRange (sort bearings) p
          = percentileWindow (sort bearings) (startIndex p (length bearings))
              (endIndex p (length bearings)) p
        \<and> startIndex p (length bearings) < length bearings
        \<and> endIndex p (length bearings) < length bearings"
    using index_in_range [of p "length bearings"] by (simp add: findPercentileRange_def)
  have ex1: "s' < 50 \<and> 50 \<le> e' \<and> e' < 100 \<longrightarrow>
        beamWidth (percentileWindow (sort (replicate 50 355 @ replicate 50 5)) s' e' 0.68) = 10"
    unfolding split_sorted by (auto simp only: split_window percentileRange.simps)
  have ex2: "beamWidth (findPercentileRange (sort (replicate 50 355 @ replicate 50 5)) 0.68) = 10"
    unfolding split_sorted split_percentile by simp
  have "replicate 50 355 @ replicate 50 (5::real) \<noteq> []" by simp
  from percentile68_of_beam [OF this, of distances]
  have ex3: "map_option (\<lambda>r. beamWidth (percentile68 r))
        (calculateBeamWidth (replicate 50 355 @ replicate 50 5) distances) = Some 10"
    using ex2 by (auto simp: map_option_case split: option.splits)
  from general indices ex1 ex2 ex3 show ?thesis by blast
qed

theorem wraparound_search_witness:
  "(0 :: real) \<le> 355 \<and> (355 :: real) < 360 \<and> (0 :: real) \<le> 5 \<and> (5 :: real) < 360
   \<and> 0 < length [355, 5 :: real] \<and> 1 < length [355, 5 :: real]
   \<and> 180 < sort [355, 5 :: real] ! 1 - sort [355, 5 :: real] ! 0
   \<and> (\<exists>offset \<in> set rotationOffsets.
         (\<forall>o' \<in> set rotationOffsets.
            windowSpan (sort [355, 5]) 0 1 offset \<le> windowSpan (sort [355, 5]) 0 1 o')
         \<and> (minBearing (percentileWindow (sort [355, 5]) 0 1 0.68),
             maxBearing (percentileWindow (sort [355, 5]) 0 1 0.68))
            = unrotated (sort [355, 5]) 0 1 offset)
   \<and> (0 :: real) < 0.68 \<and> (0.68 :: real) < 1 \<and> [355, 5 :: real] \<noteq> []
   \<and> length [355, 5 :: real] < 2 ^ 53
   \<and> startIndex 0.68 (length [355, 5 :: real]) < length [355, 5 :: real]
   \<and> endIndex 0.68 (length [355, 5 :: real]) < length [355, 5 :: real]
   \<and> (15 :: nat) < 50 \<and> (50 :: nat) \<le> 84 \<and> (84 :: nat) < 100
   \<and> beamWidth (percentileWindow (sort (replicate 50 355 @ replicate 50 5)) 15 84 0.68) = 10"
proof -
  have h1: "(\<forall>b \<in> set [355, 5 :: real]. 0 \<le> b \<and> b < 360)
      \<and> 0 < length [355, 5 :: real] \<and> 1 < length [355, 5 :: real]
      \<and> 180 < sort [355, 5 :: real] ! 1 - sort [355, 5 :: real] ! 0"
    by simp
  have h2: "(0 :: real) < 0.68 \<and> (0.68 :: real) < 1 \<and> [355, 5 :: real] \<noteq> []
      \<and> length [355, 5 :: real] < 2 ^ 53"
    by simp
  have h3: "(15 :: nat) < 50 \<and> (50 :: nat) \<le> 84 \<and> (84 :: nat) < 100"
    by simp
  note t = wraparound_search [of "[355, 5]" 0 1 "0.68" 15 84 "[]"]
  have h0: "(0 :: real) \<le> 355 \<and> (355 :: real) < 360 \<and> (0 :: real) \<le> 5 \<and> (5 :: real) < 360"
    by simp
  from t h0 h1 h2 h3 show ?thesis by blast
qed

end
